theory Spec2Isabelle
  imports Main "HOL-Library.Char_ord" "HOL-Library.List_Lexorder"
begin


section \<open>Python values and strings\<close>

text \<open>
  The controller receives one loosely typed record per call. Its values are modelled by
  \<open>pyval\<close>: None, bool, int, str, list and dict with string keys (floating point numbers
  are outside the model). A Python \<open>str\<close> is a \<open>string\<close>: a list of code points, here
  restricted to the code points below 256 that \<open>char\<close> offers.
\<close>

datatype pyval =
    PNone
  | PBool bool
  | PInt int
  | PStr string
  | PList "pyval list"
  | PDict "(string \<times> pyval) list"

text \<open>An exception, with the text that \<open>str(e)\<close> gives.\<close>

datatype exn =
    ValueError string
  | TypeError string
  | IndexError string
  | AttributeError string
  | ZeroDivisionError string
  | KeyError string
  | OtherError string

text \<open>A text between apostrophes.\<close>

definition quoted :: "string \<Rightarrow> string" where
  "quoted s = [CHR 0x27] @ s @ [CHR 0x27]"

text \<open>Truth value of an object, as \<open>if x\<close> and \<open>not x\<close> test it.\<close>

fun truthy :: "pyval \<Rightarrow> bool" where
  "truthy PNone = False"
| "truthy (PBool b) = b"
| "truthy (PInt i) = (i \<noteq> 0)"
| "truthy (PStr s) = (s \<noteq> [])"
| "truthy (PList xs) = (xs \<noteq> [])"
| "truthy (PDict kvs) = (kvs \<noteq> [])"

text \<open>
  The integer an object compares equal to under \<open>==\<close>: an int is itself, \<open>True\<close> is 1
  and \<open>False\<close> is 0; nothing else in the model equals an int.
\<close>

fun as_int :: "pyval \<Rightarrow> int option" where
  "as_int (PInt i) = Some i"
| "as_int (PBool b) = Some (if b then 1 else 0)"
| "as_int _ = None"

text \<open>\<open>cite in sources_used\<close> for an int \<open>cite\<close>: list membership compares with \<open>==\<close>.\<close>

definition int_in_list :: "int \<Rightarrow> pyval list \<Rightarrow> bool" where
  "int_in_list c su = list_ex (\<lambda>v. as_int v = Some c) su"

text \<open>
  \<open>source in cited_sources\<close> for a set of ints: the object is hashed first, and hashing
  a list or a dict raises TypeError.
\<close>

fun in_int_set :: "pyval \<Rightarrow> int list \<Rightarrow> exn + bool" where
  "in_int_set (PList xs) cited = Inl (TypeError (''unhashable type: '' @ quoted ''list''))"
| "in_int_set (PDict kvs) cited = Inl (TypeError (''unhashable type: '' @ quoted ''dict''))"
| "in_int_set v cited = Inr (case as_int v of None \<Rightarrow> False | Some i \<Rightarrow> i \<in> set cited)"

text \<open>\<open>str.isspace\<close>, which is also what \<open>str.strip()\<close> removes and what \<open>\s\<close> matches.\<close>

definition isspace :: "char \<Rightarrow> bool" where
  "isspace c = (let n = (of_char c :: nat)
                in (9 \<le> n \<and> n \<le> 13) \<or> (28 \<le> n \<and> n \<le> 32) \<or> n = 133 \<or> n = 160)"

text \<open>A decimal digit: what \<open>\d\<close> matches.\<close>

definition isdecimal :: "char \<Rightarrow> bool" where
  "isdecimal c = (let n = (of_char c :: nat) in 48 \<le> n \<and> n \<le> 57)"

definition strip :: "string \<Rightarrow> string" where
  "strip s = rev (dropWhile isspace (rev (dropWhile isspace s)))"

text \<open>\<open>content.split('\n\n')\<close>: cut at each blank line, scanning from the left.\<close>

fun split_blank :: "string \<Rightarrow> string list" where
  "split_blank [] = [[]]"
| "split_blank [c] = [[c]]"
| "split_blank (a # b # cs) =
     (if a = CHR 0x0A \<and> b = CHR 0x0A then [] # split_blank cs
      else (case split_blank (b # cs) of
              [] \<Rightarrow> [[a]]
            | p # ps \<Rightarrow> (a # p) # ps))"

text \<open>\<open>[p for p in content.split('\n\n') if p.strip()]\<close>\<close>

definition paragraphs :: "string \<Rightarrow> string list" where
  "paragraphs content = filter (\<lambda>p. strip p \<noteq> []) (split_blank content)"

text \<open>
  \<open>int(match)\<close> on a run of decimal digits. The limit that Python 3.11 and later put on
  the length of the run (4300 digits by default, beyond which \<open>int\<close> raises ValueError)
  is not modelled: the model is that of an interpreter without the limit.
\<close>

definition int_of_digits :: "string \<Rightarrow> int" where
  "int_of_digits ds = foldl (\<lambda>a c. 10 * a + (int (of_char c) - 48)) 0 ds"

text \<open>\<open>str(n)\<close> of an int.\<close>

fun str_nat :: "nat \<Rightarrow> string" where
  "str_nat n = (if n < 10 then [char_of (48 + n)]
                else str_nat (n div 10) @ [char_of (48 + n mod 10)])"

definition str_int :: "int \<Rightarrow> string" where
  "str_int i = (if i < 0 then CHR ''-'' # str_nat (nat (- i)) else str_nat (nat i))"

text \<open>\<open>sep.join(parts)\<close>\<close>

fun join :: "string \<Rightarrow> string list \<Rightarrow> string" where
  "join sep [] = []"
| "join sep [x] = x"
| "join sep (x # y # ys) = x @ sep @ join sep (y # ys)"

text \<open>\<open>str(xs)\<close> of a list of ints.\<close>

definition str_int_list :: "int list \<Rightarrow> string" where
  "str_int_list xs = ''['' @ join '', '' (map str_int xs) @ '']''"

section \<open>The citation token\<close>

text \<open>
  The pattern is \<^verbatim>\<open>\[(\d+)(?:,\s*(?:p\.|page)\s*\d+)?\]\<close>. Every repetition in it is
  followed by a character outside the repeated class, so giving back characters never
  helps and each greedy repetition takes its maximal run.
\<close>

text \<open>\<^verbatim>\<open>(?:p\.|page)\<close>\<close>

definition match_page_word :: "string \<Rightarrow> string option" where
  "match_page_word s =
     (if take 2 s = ''p.'' then Some (drop 2 s)
      else if take 4 s = ''page'' then Some (drop 4 s)
      else None)"

text \<open>\<^verbatim>\<open>,\s*(?:p\.|page)\s*\d+\<close>\<close>

definition match_page_part :: "string \<Rightarrow> string option" where
  "match_page_part s =
     (case s of
        [] \<Rightarrow> None
      | c # r \<Rightarrow>
          if c \<noteq> CHR '','' then None
          else (case match_page_word (dropWhile isspace r) of
                  None \<Rightarrow> None
                | Some r2 \<Rightarrow>
                    let r3 = dropWhile isspace r2
                    in if takeWhile isdecimal r3 = [] then None
                       else Some (dropWhile isdecimal r3)))"

text \<open>\<^verbatim>\<open>\]\<close>\<close>

definition match_close :: "string \<Rightarrow> string option" where
  "match_close s = (case s of [] \<Rightarrow> None | c # r \<Rightarrow> if c = CHR '']'' then Some r else None)"

text \<open>
  The whole pattern at the start of \<open>s\<close>: the captured digits and the text after the
  match. The optional page part is tried first; without it the bracket must close
  right after the digits.
\<close>

definition match_citation :: "string \<Rightarrow> (string \<times> string) option" where
  "match_citation s =
     (case s of
        [] \<Rightarrow> None
      | c # r \<Rightarrow>
          if c \<noteq> CHR ''['' then None
          else let ds = takeWhile isdecimal r; r1 = dropWhile isdecimal r
               in if ds = [] then None
                  else (case Option.bind (match_page_part r1) match_close of
                          Some r2 \<Rightarrow> Some (ds, r2)
                        | None \<Rightarrow> map_option (Pair ds) (match_close r1)))"

lemma match_page_word_length:
  "match_page_word s = Some r \<Longrightarrow> length r \<le> length s"
  by (auto simp: match_page_word_def split: if_splits)

lemma match_page_part_length:
  assumes "match_page_part s = Some r"
  shows "length r \<le> length s"
proof -
  have dw: "\<And>P (xs :: string). length (dropWhile P xs) \<le> length xs"
    by (simp add: length_dropWhile_le)
  from assms obtain c t r2 where s: "s = c # t"
    and w: "match_page_word (dropWhile isspace t) = Some r2"
    and r: "r = dropWhile isdecimal (dropWhile isspace r2)"
    by (auto simp: match_page_part_def Let_def split: list.splits if_splits option.splits)
  have "length r \<le> length r2"
    unfolding r using dw le_trans by blast
  also have "\<dots> \<le> length (dropWhile isspace t)"
    using match_page_word_length [OF w] .
  also have "\<dots> \<le> length t" by (rule dw)
  finally show ?thesis by (simp add: s)
qed

lemma match_close_length:
  "match_close s = Some r \<Longrightarrow> length r < length s"
  by (auto simp: match_close_def split: list.splits if_splits)

lemma match_citation_length:
  assumes "match_citation s = Some (d, r)"
  shows "length r < length s"
proof -
  from assms obtain c t where s: "s = c # t"
    by (cases s) (auto simp: match_citation_def)
  let ?r1 = "dropWhile isdecimal t"
  have r1: "length ?r1 \<le> length t" by (simp add: length_dropWhile_le)
  from assms s have
    "(\<exists>r2. match_page_part ?r1 = Some r2 \<and> match_close r2 = Some r) \<or> match_close ?r1 = Some r"
    by (auto simp: match_citation_def Let_def Option.bind_eq_Some_conv
             split: if_splits option.splits)
  then show ?thesis
  proof
    assume "\<exists>r2. match_page_part ?r1 = Some r2 \<and> match_close r2 = Some r"
    then obtain r2 where a: "match_page_part ?r1 = Some r2" and b: "match_close r2 = Some r"
      by blast
    from match_page_part_length [OF a] match_close_length [OF b] r1 show ?thesis
      by (simp add: s)
  next
    assume "match_close ?r1 = Some r"
    from match_close_length [OF this] r1 show ?thesis by (simp add: s)
  qed
qed

text \<open>
  \<open>re.findall(citation_regex, paragraph)\<close>: the captured digits of the successive
  non-overlapping matches, found from the left.
\<close>

function findall_citations :: "string \<Rightarrow> string list" where
  "findall_citations [] = []"
| "findall_citations (c # cs) =
     (case match_citation (c # cs) of
        None \<Rightarrow> findall_citations cs
      | Some (d, rest) \<Rightarrow> d # findall_citations rest)"
  by pat_completeness auto
termination
  by (relation "measure length") (auto dest: match_citation_length)

text \<open>\<open>[int(match) for match in re.findall(citation_regex, paragraph)]\<close>\<close>

definition paragraph_citations :: "string \<Rightarrow> int list" where
  "paragraph_citations paragraph = map int_of_digits (findall_citations paragraph)"

section \<open>The citation verifier\<close>

record paragraph_issue =
  pi_index :: nat
  pi_text :: string
  pi_issue :: string

text \<open>\<open>paragraph[:100] + "..." if len(paragraph) > 100 else paragraph\<close>\<close>

definition excerpt :: "string \<Rightarrow> string" where
  "excerpt paragraph = (if length paragraph > 100 then take 100 paragraph @ ''...'' else paragraph)"

text \<open>\<open>enumerate(paragraphs)\<close>\<close>

definition enumerate0 :: "'a list \<Rightarrow> (nat \<times> 'a) list" where
  "enumerate0 xs = zip [0..<length xs] xs"

text \<open>A paragraph is checked when its stripped length reaches 20; shorter ones are skipped.\<close>

definition qualifying :: "string \<Rightarrow> bool" where
  "qualifying paragraph = (\<not> length (strip paragraph) < 20)"

subsection \<open>Presence check\<close>

text \<open>
  The result dictionary of \<open>_verify_content_has_citations\<close>. The early return for an
  empty \<open>sources_used\<close> has no \<open>paragraph_issues\<close> key, which is \<open>None\<close> here.
\<close>

record presence_result =
  pc_valid :: bool
  pc_paragraph_issues :: "paragraph_issue list option"
  pc_message :: string

fun presence_loop :: "pyval list \<Rightarrow> (nat \<times> string) list \<Rightarrow> paragraph_issue list" where
  "presence_loop su [] = []"
| "presence_loop su ((i, paragraph) # rest) =
     (if length (strip paragraph) < 20 then presence_loop su rest
      else let cites = paragraph_citations paragraph
           in if cites = [] then
                \<lparr>pi_index = i, pi_text = excerpt paragraph,
                 pi_issue = ''Paragraph contains no citations''\<rparr> # presence_loop su rest
              else let invalid_citations = filter (\<lambda>cite. \<not> int_in_list cite su) cites
                   in if invalid_citations \<noteq> [] then
                        \<lparr>pi_index = i, pi_text = excerpt paragraph,
                         pi_issue = ''Paragraph contains invalid citations: ''
                                    @ str_int_list invalid_citations\<rparr> # presence_loop su rest
                      else presence_loop su rest)"

definition verify_content_has_citations :: "string \<Rightarrow> pyval list \<Rightarrow> presence_result" where
  "verify_content_has_citations content sources_used =
     (if sources_used = [] then
        \<lparr>pc_valid = False, pc_paragraph_issues = None,
         pc_message = ''No sources provided in sources_used list.''\<rparr>
      else let paragraph_issues = presence_loop sources_used (enumerate0 (paragraphs content))
           in \<lparr>pc_valid = (length paragraph_issues = 0),
               pc_paragraph_issues = Some paragraph_issues,
               pc_message = (if paragraph_issues \<noteq> []
                             then str_nat (length paragraph_issues) @ '' paragraphs with citation issues''
                             else ''All paragraphs properly cited'')\<rparr>)"

subsection \<open>Full verification\<close>

text \<open>
  \<open>cited_sources\<close> is a Python set of ints. It is kept as a duplicate-free list in order
  of first insertion; Python iterates a set in hash-table order, so only the elements of
  \<open>vc_invalid_citations\<close>, not their order, are meaningful.
\<close>

record verify_result =
  vc_valid :: bool
  vc_uncited_sources :: "pyval list"
  vc_invalid_citations :: "int list"
  vc_uncited_paragraphs :: "paragraph_issue list"
  vc_message :: string

text \<open>\<open>cited_sources.update(paragraph_citations)\<close>\<close>

definition set_update :: "int list \<Rightarrow> int list \<Rightarrow> int list" where
  "set_update cited cites = foldl (\<lambda>acc c. if c \<in> set acc then acc else acc @ [c]) cited cites"

text \<open>
  The loop over the paragraphs, threading \<open>results["valid"]\<close>, \<open>cited_sources\<close> and
  \<open>paragraph_issues\<close>.
\<close>

fun verify_loop ::
  "pyval list \<Rightarrow> (nat \<times> string) list \<Rightarrow> bool \<times> int list \<times> paragraph_issue list
     \<Rightarrow> bool \<times> int list \<times> paragraph_issue list" where
  "verify_loop su [] st = st"
| "verify_loop su ((i, paragraph) # rest) (valid, cited, issues) =
     (if length (strip paragraph) < 20 then verify_loop su rest (valid, cited, issues)
      else let cites = paragraph_citations paragraph;
               cited1 = set_update cited cites;
               (valid1, issues1) =
                 (if cites = [] then
                    (False, issues @ [\<lparr>pi_index = i, pi_text = excerpt paragraph,
                                       pi_issue = ''No citations found''\<rparr>])
                  else (valid, issues));
               invalid_citations = filter (\<lambda>cite. \<not> int_in_list cite su) cites;
               (valid2, issues2) =
                 (if invalid_citations \<noteq> [] then
                    (False, issues1 @ [\<lparr>pi_index = i, pi_text = excerpt paragraph,
                                        pi_issue = ''Invalid citations: ''
                                                   @ str_int_list invalid_citations\<rparr>])
                  else (valid1, issues1))
           in verify_loop su rest (valid2, cited1, issues2))"

text \<open>\<open>[source for source in sources_used if source not in cited_sources]\<close>\<close>

fun uncited :: "pyval list \<Rightarrow> int list \<Rightarrow> exn + pyval list" where
  "uncited [] cited = Inr []"
| "uncited (source # rest) cited =
     (case in_int_set source cited of
        Inl e \<Rightarrow> Inl e
      | Inr b \<Rightarrow> (case uncited rest cited of
                    Inl e \<Rightarrow> Inl e
                  | Inr us \<Rightarrow> Inr (if b then us else source # us)))"

text \<open>
  \<open>str(s)\<close> for an element of \<open>uncited_sources\<close>. A list or a dict never gets there
  (hashing it has raised before), so no rendering of them is needed.
\<close>

fun str_hashable :: "pyval \<Rightarrow> string" where
  "str_hashable PNone = ''None''"
| "str_hashable (PBool b) = (if b then ''True'' else ''False'')"
| "str_hashable (PInt i) = str_int i"
| "str_hashable (PStr s) = s"
| "str_hashable (PList xs) = []"
| "str_hashable (PDict kvs) = []"

definition verify_message :: "pyval list \<Rightarrow> int list \<Rightarrow> paragraph_issue list \<Rightarrow> string" where
  "verify_message uncited_sources invalid_citations paragraph_issues =
     (let messages =
            (if uncited_sources \<noteq> [] then
               [''Sources listed but not cited in content: ''
                @ join '', '' (map str_hashable uncited_sources)] else [])
          @ (if invalid_citations \<noteq> [] then
               [''Citations in content not in sources_used list: ''
                @ join '', '' (map str_int invalid_citations)] else [])
          @ (if paragraph_issues \<noteq> [] then
               [str_nat (length paragraph_issues) @ '' paragraphs with citation issues found.'']
             else [])
      in if messages \<noteq> [] then join '' '' messages
         else ''All citations validated successfully.'')"

definition verify_citations :: "string \<Rightarrow> pyval list \<Rightarrow> exn + verify_result" where
  "verify_citations content sources_used =
     (case verify_loop sources_used (enumerate0 (paragraphs content)) (True, [], []) of
        (valid, cited_sources, paragraph_issues) \<Rightarrow>
          (case uncited sources_used cited_sources of
             Inl e \<Rightarrow> Inl e
           | Inr uncited_sources \<Rightarrow>
               let valid1 = (if uncited_sources \<noteq> [] then False else valid);
                   invalid_citations = filter (\<lambda>cite. \<not> int_in_list cite sources_used) cited_sources;
                   valid2 = (if invalid_citations \<noteq> [] then False else valid1)
               in Inr \<lparr>vc_valid = valid2,
                       vc_uncited_sources = uncited_sources,
                       vc_invalid_citations = invalid_citations,
                       vc_uncited_paragraphs = paragraph_issues,
                       vc_message = verify_message uncited_sources invalid_citations paragraph_issues\<rparr>))"

text \<open>What the loop of the full verification asks of one checked paragraph.\<close>

definition cites_ok :: "pyval list \<Rightarrow> string \<Rightarrow> bool" where
  "cites_ok su p = (paragraph_citations p \<noteq> [] \<and> (\<forall>c\<in>set (paragraph_citations p). int_in_list c su))"

section \<open>The report planner\<close>

record section_stub =
  stub_title :: string
  stub_is_bibliography :: bool

record plan =
  plan_topic :: string
  plan_total_sections :: int
  plan_sections :: "section_stub list"
  plan_current_section :: int
  plan_steps :: "string list"
  plan_current_step :: int
  plan_next_step :: string
  plan_reportGuidelines :: "string list"

definition enhanced_steps :: "string list" where
  "enhanced_steps =
     [''Initialize with topic'',
      ''Search for sources and extract PDF content'',
      ''Analyze PDF content for primary source material'',
      ''Create bibliography with PDFs marked'',
      ''Write introduction incorporating PDF insights'',
      ''Develop content sections using PDF extracts'',
      ''Include images when relevant to illustrate key points'',
      ''Write conclusion'']"

definition reportGuidelines :: "string list" where
  "reportGuidelines =
     [''CRITICAL: NEVER invent or fabricate any information. If sources are insufficient, explicitly state this limitation.'',
      ''Every statement in the report MUST be directly supported by the content from the sources found.'',
      ''Use specific citations ([source_id], page X) for EVERY factual claim in the report.'',
      ''Always include proper references with links to the original sources.'',
      ''Use PDF content to extract direct quotes and primary source material.'',
      ''Include images when they help illustrate important concepts.'',
      ''Explicitly mention where you found each piece of information and explain its relevance.'',
      ''Try to use at least two different source providers/institutions for varied perspectives.'',
      ''Include a brief source analysis at the end of each section.'',
      ''Make connections between different sources when possible.'',
      ''When analyzing PDFs, cite the specific page number if available.'',
      ''If sources are insufficient to address an aspect of the topic, clearly state this limitation rather than attempting to fill the gap.'']"

definition stub :: "string \<Rightarrow> bool \<Rightarrow> section_stub" where
  "stub t b = \<lparr>stub_title = t, stub_is_bibliography = b\<rparr>"

text \<open>
  \<open>create_plan\<close>. \<open>range(remaining_sections)\<close> is empty when \<open>remaining_sections\<close> is not
  positive, which \<open>nat\<close> of a negative int gives as well.
\<close>

definition create_plan :: "string \<Rightarrow> int \<Rightarrow> plan" where
  "create_plan topic page_count =
     (let total_sections = min (page_count * 2 + 1) 20;
          sections0 = [stub ''Bibliography'' True, stub ''Introduction'' False];
          sections1 = (if page_count \<ge> 2
                       then sections0 @ [stub ''Historical Context'' False] else sections0);
          sections2 = (if page_count \<ge> 3
                       then sections1 @ [stub ''Main Analysis'' False, stub ''Key Findings'' False]
                       else sections1);
          sections3 = (if page_count \<ge> 4
                       then sections2 @ [stub ''Detailed Examination'' False,
                                         stub ''Cultural Significance'' False]
                       else sections2);
          remaining_sections = total_sections - int (length sections3);
          sections4 = sections3 @ map (\<lambda>i. stub (''Additional Analysis '' @ str_nat (i + 1)) False)
                                      [0..<nat remaining_sections];
          sections5 = sections4 @ [stub ''Conclusion'' False]
      in \<lparr>plan_topic = topic,
          plan_total_sections = int (length sections5),
          plan_sections = sections5,
          plan_current_section = 0,
          plan_steps = enhanced_steps,
          plan_current_step = 0,
          plan_next_step = ''Search for sources and extract PDF content'',
          plan_reportGuidelines = reportGuidelines\<rparr>)"

section \<open>Sources\<close>

text \<open>A JSON field of a search result that is a string or a list of strings.\<close>

datatype mv = One string | Many "string list"

record source =
  s_id :: int
  s_title :: string
  s_description :: string
  s_url :: string
  s_provider :: string
  s_thumbnail :: "string option"
  s_media_type :: string
  s_rights :: string
  s_date :: mv
  s_europeanaId :: string
  s_is_pdf :: "bool option"

section \<open>Provider diversity\<close>

record provider_analysis =
  diverse_sources :: bool
  total_providers :: nat
  primary_provider :: string
  provider_distribution :: "(string \<times> nat) list"

text \<open>
  A Python dict keeps its keys in insertion order: an association list with distinct
  keys. \<open>d[k] = v\<close> replaces the value of a present key in place and appends a new key.
\<close>

definition dict_set :: "'k \<Rightarrow> 'v \<Rightarrow> ('k \<times> 'v) list \<Rightarrow> ('k \<times> 'v) list" where
  "dict_set k v d =
     (if k \<in> fst ` set d then map (\<lambda>(k', v'). if k' = k then (k', v) else (k', v')) d
      else d @ [(k, v)])"

text \<open>
  One round of the counting loop. Every source has a provider, so the default
  \<open>'Unknown'\<close> of \<open>source.get('provider', 'Unknown')\<close> is never taken.
\<close>

definition count_provider :: "(string \<times> nat) list \<Rightarrow> source \<Rightarrow> (string \<times> nat) list" where
  "count_provider provider_counts src =
     (let provider = s_provider src;
          counts1 = (if provider \<notin> fst ` set provider_counts
                     then dict_set provider 0 provider_counts else provider_counts)
      in case map_of counts1 provider of
           None \<Rightarrow> counts1
         | Some c \<Rightarrow> dict_set provider (c + 1) counts1)"

text \<open>
  \<open>sorted(items, key=..., reverse=True)\<close>: the sort is stable, and with \<open>reverse=True\<close>
  the list is reversed, sorted stably in ascending order and reversed again, so items
  with equal keys keep their original order.
\<close>

definition sorted_reverse :: "('a \<Rightarrow> 'k::linorder) \<Rightarrow> 'a list \<Rightarrow> 'a list" where
  "sorted_reverse key xs = rev (sort_key key (rev xs))"

definition analyze_provider_diversity :: "source list \<Rightarrow> provider_analysis" where
  "analyze_provider_diversity sources =
     (if sources = [] then
        \<lparr>diverse_sources = False, total_providers = 0, primary_provider = ''None'',
         provider_distribution = []\<rparr>
      else let provider_counts = foldl count_provider [] sources;
               sorted_providers = sorted_reverse snd provider_counts;
               primary = (case sorted_providers of [] \<Rightarrow> ''Unknown'' | x # _ \<Rightarrow> fst x);
               total = length provider_counts
           in \<lparr>diverse_sources = (total > 1), total_providers = total,
               primary_provider = primary, provider_distribution = provider_counts\<rparr>)"

text \<open>A source of which only the provider matters.\<close>

definition mk_source :: "string \<Rightarrow> source" where
  "mk_source p = \<lparr>s_id = 0, s_title = [], s_description = [], s_url = [], s_provider = p,
     s_thumbnail = None, s_media_type = [], s_rights = [], s_date = One [], s_europeanaId = [],
     s_is_pdf = None\<rparr>"

text \<open>The elements of a list in order of first occurrence: the keys of the counting dict.\<close>

definition firsts :: "'a list \<Rightarrow> 'a list" where
  "firsts xs = foldl (\<lambda>acc x. if x \<in> set acc then acc else acc @ [x]) [] xs"

section \<open>More string operations\<close>

text \<open>\<open>str.lower()\<close> on the code points below 256.\<close>

definition lower_char :: "char \<Rightarrow> char" where
  "lower_char c = (let n = (of_char c :: nat)
                   in if (65 \<le> n \<and> n \<le> 90) \<or> (192 \<le> n \<and> n \<le> 222 \<and> n \<noteq> 215)
                      then char_of (n + 32) else c)"

definition lower :: "string \<Rightarrow> string" where
  "lower s = map lower_char s"

text \<open>\<open>s.endswith(suffix)\<close> and \<open>sub in s\<close>.\<close>

definition endswith :: "string \<Rightarrow> string \<Rightarrow> bool" where
  "endswith s suffix = (length suffix \<le> length s \<and> drop (length s - length suffix) s = suffix)"

fun contains :: "string \<Rightarrow> string \<Rightarrow> bool" where
  "contains sub [] = (sub = [])"
| "contains sub (c # cs) = (take (length sub) (c # cs) = sub \<or> contains sub cs)"

text \<open>\<open>s.split()\<close>: the maximal runs of characters that are not whitespace.\<close>

fun split_ws_aux :: "string \<Rightarrow> string \<Rightarrow> string list" where
  "split_ws_aux cur [] = (if cur = [] then [] else [cur])"
| "split_ws_aux cur (c # cs) =
     (if isspace c then (if cur = [] then split_ws_aux [] cs else cur # split_ws_aux [] cs)
      else split_ws_aux (cur @ [c]) cs)"

definition split_ws :: "string \<Rightarrow> string list" where
  "split_ws s = split_ws_aux [] s"

text \<open>\<open>s.replace(old, '')\<close> for a non-empty \<open>old\<close>: every occurrence, from the left, is removed.\<close>

function remove_all :: "string \<Rightarrow> string \<Rightarrow> string" where
  "remove_all old [] = []"
| "remove_all old (c # cs) =
     (if old \<noteq> [] \<and> take (length old) (c # cs) = old
      then remove_all old (drop (length old) (c # cs))
      else c # remove_all old cs)"
  by pat_completeness auto
termination
  by (relation "measure (\<lambda>(old, s). length s)") auto

text \<open>
  \<^verbatim>\<open>re.findall(r'"([^"]*)"', topic)\<close>: the texts between successive pairs of double
  quotes.
\<close>

function findall_quoted :: "string \<Rightarrow> string list" where
  "findall_quoted [] = []"
| "findall_quoted (c # cs) =
     (if c = CHR 0x22 \<and> CHR 0x22 \<in> set cs
      then takeWhile (\<lambda>x. x \<noteq> CHR 0x22) cs
           # findall_quoted (drop 1 (dropWhile (\<lambda>x. x \<noteq> CHR 0x22) cs))
      else findall_quoted cs)"
  by pat_completeness auto
termination
proof (relation "measure length")
  show "wf (measure length)" by simp
next
  fix c :: char and cs :: string
  have "length (dropWhile (\<lambda>x. x \<noteq> CHR 0x22) cs) \<le> length cs"
    by (rule length_dropWhile_le)
  then show "(drop 1 (dropWhile (\<lambda>x. x \<noteq> CHR 0x22) cs), c # cs) \<in> measure length"
    by simp
next
  fix c :: char and cs :: string
  show "(cs, c # cs) \<in> measure length" by simp
qed

section \<open>Source discovery\<close>

text \<open>
  One record of a search answer, with the fields the engine reads. \<open>None\<close> is an absent
  key; each value is a string or a list of strings.
\<close>

record raw_result =
  r_id :: "string option"
  r_edmIsShownBy :: "mv option"
  r_edmIsShownAt :: "mv option"
  r_title :: "mv option"
  r_description :: "mv option"
  r_provider :: "mv option"
  r_type :: "string option"
  r_rights :: "mv option"
  r_year :: "mv option"

text \<open>
  The requests the engine sends: \<open>europeana_api.search(query, rows, profile, type, language)\<close>,
  \<open>search_api.advanced_search(query, filters, rows, profile)\<close> and
  \<open>search_api.search_by_type(type, rows, query)\<close>.
\<close>

datatype api_call =
    Search string int "string option" "string option"
  | AdvancedSearch string "string list" int
  | SearchByType string int string

text \<open>
  The search service: the answer to the \<open>n\<close>-th request, which is an exception or the
  \<open>records\<close> list of the answer (empty when the answer has no such key).
\<close>

type_synonym api = "nat \<Rightarrow> api_call \<Rightarrow> exn + raw_result list"

text \<open>\<open>v[0] if isinstance(v, list) else v\<close>\<close>

fun first_or_self :: "mv \<Rightarrow> exn + string" where
  "first_or_self (One s) = Inr s"
| "first_or_self (Many []) = Inl (IndexError ''list index out of range'')"
| "first_or_self (Many (x # xs)) = Inr x"

text \<open>
  \<open>result.get(k, [d])[0] if isinstance(result.get(k, []), list) else result.get(k, d)\<close>
\<close>

definition get_first :: "mv option \<Rightarrow> string \<Rightarrow> exn + string" where
  "get_first field d = (case field of None \<Rightarrow> Inr d | Some v \<Rightarrow> first_or_self v)"

text \<open>
  The part of \<open>process_result\<close> after the identifier was added to \<open>seen_ids\<close>; an
  exception in it is caught by \<open>process_result\<close>. The thumbnail of a search record is its
  \<open>edmIsShownBy\<close> value, or None without that key. The counters of \<open>search_metrics\<close> are
  only logged and are left out.
\<close>

definition format_result ::
  "string \<Rightarrow> raw_result \<Rightarrow> string \<Rightarrow> int \<Rightarrow> string \<Rightarrow> exn + source option" where
  "format_result topic result result_type index id_field =
     (case (case r_edmIsShownBy result of
              Some v \<Rightarrow> first_or_self v
            | None \<Rightarrow> (case r_edmIsShownAt result of
                         Some v \<Rightarrow> first_or_self v
                       | None \<Rightarrow> Inr [])) of
        Inl e \<Rightarrow> Inl e
      | Inr url \<Rightarrow>
          if url = [] then Inr None
          else (case get_first (r_title result) ''Untitled'' of
                  Inl e \<Rightarrow> Inl e
                | Inr title \<Rightarrow>
                   (case get_first (r_description result) [] of
                      Inl e \<Rightarrow> Inl e
                    | Inr description0 \<Rightarrow>
                       let description =
                             (if description0 = []
                              then result_type @ '' related to '' @ topic @ '': '' @ title
                              else description0)
                       in (case get_first (r_provider result) ''Unknown Provider'' of
                             Inl e \<Rightarrow> Inl e
                           | Inr provider \<Rightarrow>
                              (case get_first (r_rights result) ''Unknown Rights'' of
                                 Inl e \<Rightarrow> Inl e
                               | Inr rights \<Rightarrow>
                                  Inr (Some
                                    \<lparr>s_id = index,
                                     s_title = title,
                                     s_description = description,
                                     s_url = url,
                                     s_provider = provider,
                                     s_thumbnail = (case r_edmIsShownBy result of
                                                      None \<Rightarrow> None | Some v \<Rightarrow> Some url),
                                     s_media_type = (case r_type result of
                                                       None \<Rightarrow> ''Unknown'' | Some t \<Rightarrow> t),
                                     s_rights = rights,
                                     s_date = (case r_year result of
                                                 None \<Rightarrow> One ''Unknown Date'' | Some y \<Rightarrow> y),
                                     s_europeanaId = id_field,
                                     s_is_pdf = Some (endswith (lower url) ''.pdf'')\<rparr>))))))"

text \<open>
  \<open>process_result\<close> of \<open>search_sources\<close>: the formatted source, or None, and the new
  \<open>seen_ids\<close>.
\<close>

definition process_result ::
  "string \<Rightarrow> string set \<Rightarrow> raw_result \<Rightarrow> string \<Rightarrow> int \<Rightarrow> source option \<times> string set" where
  "process_result topic seen_ids result result_type index =
     (case r_id result of
        None \<Rightarrow> (None, seen_ids)
      | Some id_field \<Rightarrow>
          if id_field = [] then (None, seen_ids)
          else if id_field \<in> seen_ids then (None, seen_ids)
          else (case format_result topic result result_type index id_field of
                  Inl e \<Rightarrow> (None, insert id_field seen_ids)
                | Inr r \<Rightarrow> (r, insert id_field seen_ids)))"

text \<open>\<open>process_result\<close> of \<open>search_graphics\<close>: the same without the \<open>is_pdf\<close> key.\<close>

definition process_graphic ::
  "string \<Rightarrow> string set \<Rightarrow> raw_result \<Rightarrow> string \<Rightarrow> int \<Rightarrow> source option \<times> string set" where
  "process_graphic topic seen_ids result result_type index =
     (case process_result topic seen_ids result result_type index of
        (r, seen) \<Rightarrow> (map_option (\<lambda>g. g\<lparr>s_is_pdf := None\<rparr>) r, seen))"

text \<open>
  \<open>for i, result in enumerate(results, start): ...; if source: all_results.append(source)\<close>
\<close>

fun collect ::
  "(string set \<Rightarrow> raw_result \<Rightarrow> string \<Rightarrow> int \<Rightarrow> source option \<times> string set) \<Rightarrow> string
     \<Rightarrow> raw_result list \<Rightarrow> int \<Rightarrow> source list \<times> string set \<Rightarrow> source list \<times> string set" where
  "collect pr result_type [] i st = st"
| "collect pr result_type (result # results) i (all_results, seen_ids) =
     (case pr seen_ids result result_type i of
        (None, seen) \<Rightarrow> collect pr result_type results (i + 1) (all_results, seen)
      | (Some source, seen) \<Rightarrow>
          collect pr result_type results (i + 1) (all_results @ [source], seen))"

text \<open>
  The retry loop: \<open>attempts\<close> are the values of \<open>attempt\<close> still to run, \<open>n\<close> counts the
  requests sent so far. The waiting between attempts is not modelled.
\<close>

fun retry :: "api \<Rightarrow> api_call \<Rightarrow> nat \<Rightarrow> nat list \<Rightarrow> nat \<Rightarrow> (exn + raw_result list) \<times> nat" where
  "retry api call max_retries [] n = (Inr [], n)"
| "retry api call max_retries (attempt # attempts) n =
     (case api n call of
        Inr records \<Rightarrow> (Inr records, n + 1)
      | Inl e \<Rightarrow> if attempt = max_retries - 1 then (Inl e, n + 1)
                 else retry api call max_retries attempts (n + 1))"

text \<open>The accented letters that make the search ask for French.\<close>

definition french_chars :: string where
  "french_chars = [CHR 0xE0, CHR 0xE2, CHR 0xE7, CHR 0xE9, CHR 0xE8, CHR 0xEA, CHR 0xEB,
                   CHR 0xEE, CHR 0xEF, CHR 0xF4, CHR 0xFB, CHR 0xFC]"

text \<open>\<open>search_with_retry\<close> of \<open>search_sources\<close>, with \<open>max_retries = 3\<close>.\<close>

definition search_with_retry ::
  "api \<Rightarrow> string \<Rightarrow> string \<Rightarrow> string option \<Rightarrow> int \<Rightarrow> nat \<Rightarrow> (exn + raw_result list) \<times> nat" where
  "search_with_retry api topic query search_type rows n =
     (let has_complex_syntax = (contains '' OR '' query \<or> contains '' AND '' query);
          call = (if has_complex_syntax
                  then AdvancedSearch query
                         (case search_type of None \<Rightarrow> [] | Some t \<Rightarrow> [''TYPE:'' @ t]) rows
                  else Search query rows search_type
                         (if list_ex (\<lambda>char. char \<in> set (lower topic)) french_chars
                          then Some ''fr'' else None))
      in retry api call 3 [0..<3] n)"

text \<open>\<open>search_with_retry\<close> of \<open>search_graphics\<close>.\<close>

definition search_graphics_with_retry ::
  "api \<Rightarrow> string \<Rightarrow> string \<Rightarrow> int \<Rightarrow> nat \<Rightarrow> (exn + raw_result list) \<times> nat" where
  "search_graphics_with_retry api query search_type rows n =
     retry api (SearchByType search_type rows query) 3 [0..<3] n"

text \<open>
  The state of one discovery run: \<open>all_results\<close>, \<open>seen_ids\<close> and the number of requests
  sent. One strategy sends its request and, unless the request failed for good, feeds
  the records to \<open>process_result\<close>, numbering them from \<open>len(all_results) + 1\<close>.
\<close>

type_synonym discovery = "source list \<times> string set \<times> nat"

definition strategy ::
  "(string set \<Rightarrow> raw_result \<Rightarrow> string \<Rightarrow> int \<Rightarrow> source option \<times> string set) \<Rightarrow> string
     \<Rightarrow> (nat \<Rightarrow> (exn + raw_result list) \<times> nat) \<Rightarrow> discovery \<Rightarrow> discovery" where
  "strategy pr result_type request st =
     (case st of (all_results, seen_ids, n) \<Rightarrow>
        (case request n of
           (Inl e, n') \<Rightarrow> (all_results, seen_ids, n')
         | (Inr results, n') \<Rightarrow>
             (case collect pr result_type results (int (length all_results) + 1)
                     (all_results, seen_ids) of
                (all', seen') \<Rightarrow> (all', seen', n'))))"

text \<open>Strategy 3: the words longer than three letters and the quoted phrases, joined by OR.\<close>

definition keywords_of :: "string \<Rightarrow> string list" where
  "keywords_of topic =
     (let quoted_phrases = findall_quoted topic;
          temp_topic = foldl (\<lambda>t phrase. remove_all ([CHR 0x22] @ phrase @ [CHR 0x22]) t)
                         topic quoted_phrases;
          words = filter (\<lambda>w. length w > 3 \<and> lower w \<notin> set [''and'', ''or''])
                    (split_ws temp_topic)
      in words @ quoted_phrases)"

definition keyword_query :: "string list \<Rightarrow> string" where
  "keyword_query keywords =
     join '' OR '' (map (\<lambda>k. if CHR '' '' \<in> set k then [CHR 0x22] @ k @ [CHR 0x22] else k) keywords)"

text \<open>Strategy 4: one request per media type, until enough sources are there.\<close>

fun type_searches :: "api \<Rightarrow> string \<Rightarrow> int \<Rightarrow> string list \<Rightarrow> discovery \<Rightarrow> discovery" where
  "type_searches api topic source_count [] st = st"
| "type_searches api topic source_count (media_type # media_types) (all_results, seen_ids, n) =
     (if int (length all_results) \<ge> source_count then (all_results, seen_ids, n)
      else type_searches api topic source_count media_types
             (strategy (process_result topic) media_type
                (search_with_retry api topic topic (Some media_type)
                   (source_count - int (length all_results)))
                (all_results, seen_ids, n)))"

text \<open>The four strategies of \<open>search_sources\<close>, in order.\<close>

definition discover_sources :: "api \<Rightarrow> string \<Rightarrow> int \<Rightarrow> nat \<Rightarrow> discovery" where
  "discover_sources api topic source_count n =
     (let has_or_operators = contains '' OR '' topic;
          st1 = strategy (process_result topic) ''Source''
                  (search_with_retry api topic topic None source_count) ([], {}, n)
      in if int (length (fst st1)) < source_count \<and> \<not> has_or_operators then
           let st2 = (if int (length (fst st1)) < source_count
                         \<and> \<not> (CHR 0x22 \<in> set topic \<or> contains '' OR '' topic)
                      then strategy (process_result topic) ''Source''
                             (search_with_retry api topic ([CHR 0x22] @ topic @ [CHR 0x22])
                                None source_count) st1
                      else st1);
               st3 = (if int (length (fst st2)) < source_count \<and> keywords_of topic \<noteq> []
                      then strategy (process_result topic) ''Source''
                             (search_with_retry api topic (keyword_query (keywords_of topic))
                                None source_count) st2
                      else st2)
           in if int (length (fst st3)) < source_count
              then type_searches api topic source_count [''IMAGE'', ''VIDEO'', ''SOUND'', ''TEXT''] st3
              else st3
         else st1)"

text \<open>
  \<open>search_sources\<close>: the returned list, the provider analysis stored in the session and
  the number of requests sent. No step of the modelled body raises, so the outer
  \<open>except\<close> that returns the empty list is never entered.
\<close>

definition search_sources ::
  "api \<Rightarrow> string \<Rightarrow> int \<Rightarrow> nat \<Rightarrow> source list \<times> provider_analysis \<times> nat" where
  "search_sources api topic source_count n =
     (case discover_sources api topic source_count n of
        (all_results, seen_ids, n') \<Rightarrow>
          let sorted_results = sorted_reverse s_europeanaId all_results;
              final_results = (if source_count > 0 then take (nat source_count) sorted_results
                               else sorted_results)
          in (final_results, analyze_provider_diversity final_results, n'))"

text \<open>\<open>xs[:count]\<close>; a negative \<open>count\<close> drops that many elements from the end.\<close>

definition slice_to :: "int \<Rightarrow> 'a list \<Rightarrow> 'a list" where
  "slice_to count xs = (if count \<ge> 0 then take (nat count) xs
                        else take (length xs - nat (- count)) xs)"

definition discover_graphics :: "api \<Rightarrow> string \<Rightarrow> int \<Rightarrow> nat \<Rightarrow> discovery" where
  "discover_graphics api topic count n =
     (let st1 = strategy (process_graphic topic) ''Image''
                  (search_graphics_with_retry api topic ''IMAGE'' count) ([], {}, n);
          keywords = filter (\<lambda>w. length w > 3) (split_ws topic);
          st2 = (if int (length (fst st1)) < count \<and> keywords \<noteq> []
                 then strategy (process_graphic topic) ''Image''
                        (search_graphics_with_retry api (join '' OR '' keywords) ''IMAGE''
                           (count - int (length (fst st1)))) st1
                 else st1);
          st3 = (if int (length (fst st2)) < count
                 then strategy (process_graphic topic) ''Video''
                        (search_graphics_with_retry api topic ''VIDEO''
                           (count - int (length (fst st2)))) st2
                 else st2);
          st4 = (if int (length (fst st3)) < count
                 then strategy (process_graphic topic) ''Audio''
                        (search_graphics_with_retry api topic ''SOUND''
                           (count - int (length (fst st3)))) st3
                 else st3)
      in st4)"

definition search_graphics :: "api \<Rightarrow> string \<Rightarrow> int \<Rightarrow> nat \<Rightarrow> source list \<times> nat" where
  "search_graphics api topic count n =
     (case discover_graphics api topic count n of
        (all_graphics, seen_ids, n') \<Rightarrow>
          (slice_to count (sorted_reverse s_europeanaId all_graphics), n'))"

subsection \<open>The invariant of the running set\<close>

text \<open>
  The sources collected so far have pairwise different origin identifiers, all of them
  in \<open>seen_ids\<close>.
\<close>

definition deduped :: "source list \<Rightarrow> string set \<Rightarrow> bool" where
  "deduped all_results seen_ids =
     (distinct (map s_europeanaId all_results) \<and> s_europeanaId ` set all_results \<subseteq> seen_ids)"

text \<open>What both \<open>process_result\<close> functions guarantee.\<close>

definition fresh_only ::
  "(string set \<Rightarrow> raw_result \<Rightarrow> string \<Rightarrow> int \<Rightarrow> source option \<times> string set) \<Rightarrow> bool" where
  "fresh_only pr =
     (\<forall>seen result t i r seen'. pr seen result t i = (r, seen') \<longrightarrow>
        seen \<subseteq> seen' \<and>
        (\<forall>s. r = Some s \<longrightarrow> s_europeanaId s \<notin> seen \<and> s_europeanaId s \<in> seen'))"

definition deduped_state :: "discovery \<Rightarrow> bool" where
  "deduped_state st = (case st of (all_results, seen_ids, n) \<Rightarrow> deduped all_results seen_ids)"

subsection \<open>Example answers\<close>

text \<open>
  A search record with an identifier and a link, a service that answers the first
  request with two records, and one that answers it with a repeated record.
\<close>

definition example_record :: "string \<Rightarrow> raw_result" where
  "example_record ident =
     \<lparr>r_id = Some ident, r_edmIsShownBy = Some (Many [''http://example.org'' @ ident]),
      r_edmIsShownAt = None, r_title = Some (Many [''Title'']), r_description = None,
      r_provider = Some (Many [''Provider'']), r_type = Some ''IMAGE'', r_rights = None,
      r_year = None\<rparr>"

definition example_api :: api where
  "example_api n call =
     (if n = 0 then Inr [example_record ''/1/a'', example_record ''/1/b''] else Inr [])"

definition example_api_dup :: api where
  "example_api_dup n call =
     (if n = 0 then Inr [example_record ''/1/b'', example_record ''/1/b'', example_record ''/1/a'']
      else Inr [])"

section \<open>Input validation\<close>

definition DEFAULT_PAGE_COUNT :: int where
  "DEFAULT_PAGE_COUNT = 4"

definition DEFAULT_SOURCE_COUNT :: int where
  "DEFAULT_SOURCE_COUNT = 10"

text \<open>The name of the type of an object.\<close>

fun type_name :: "pyval \<Rightarrow> string" where
  "type_name PNone = ''NoneType''"
| "type_name (PBool b) = ''bool''"
| "type_name (PInt i) = ''int''"
| "type_name (PStr s) = ''str''"
| "type_name (PList xs) = ''list''"
| "type_name (PDict kvs) = ''dict''"

text \<open>
  \<open>str(x)\<close>. The text of a list or a dict is Python's \<open>repr\<close>, which is taken as the
  parameter \<open>repr\<close>.
\<close>

fun py_str :: "(pyval \<Rightarrow> string) \<Rightarrow> pyval \<Rightarrow> string" where
  "py_str repr (PList xs) = repr (PList xs)"
| "py_str repr (PDict kvs) = repr (PDict kvs)"
| "py_str repr v = str_hashable v"

text \<open>
  \<open>int(s)\<close> of a string: surrounding whitespace is dropped, a sign may lead, and the
  digits may be grouped by single underscores. The whitespace that \<open>int\<close> drops is
  narrower than that of \<open>strip()\<close>: the separators 28 to 31 are not accepted.
\<close>

definition int_space :: "char \<Rightarrow> bool" where
  "int_space c = (let n = (of_char c :: nat)
                  in (9 \<le> n \<and> n \<le> 13) \<or> n = 32 \<or> n = 133 \<or> n = 160)"

fun grouped_digits :: "string \<Rightarrow> bool" where
  "grouped_digits [] = False"
| "grouped_digits [c] = isdecimal c"
| "grouped_digits (c # d # cs) =
     (isdecimal c \<and> (if d = CHR ''_'' then grouped_digits cs else grouped_digits (d # cs)))"

definition parse_int :: "string \<Rightarrow> int option" where
  "parse_int s =
     (let t = rev (dropWhile int_space (rev (dropWhile int_space s)));
          negative = (take 1 t = ''-'');
          body = (if take 1 t = ''-'' \<or> take 1 t = ''+'' then drop 1 t else t)
      in if grouped_digits body
         then Some ((if negative then - 1 else 1) * int_of_digits (filter (\<lambda>c. c \<noteq> CHR ''_'') body))
         else None)"

text \<open>
  \<open>int(x)\<close> inside \<open>try: ... except (ValueError, TypeError): default\<close>: None, a list and a
  dict raise TypeError, a string that is no number raises ValueError.
\<close>

fun int_or_default :: "pyval \<Rightarrow> int \<Rightarrow> int" where
  "int_or_default (PInt i) d = i"
| "int_or_default (PBool b) d = (if b then 1 else 0)"
| "int_or_default (PStr s) d = (case parse_int s of None \<Rightarrow> d | Some i \<Rightarrow> i)"
| "int_or_default v d = d"

text \<open>
  \<open>str.isdigit()\<close>: below 256 the digits are 0 to 9 and the superscripts 1, 2 and 3,
  which \<open>int\<close> does not accept.
\<close>

definition isdigit_char :: "char \<Rightarrow> bool" where
  "isdigit_char c = (isdecimal c \<or> c = CHR 0xB2 \<or> c = CHR 0xB3 \<or> c = CHR 0xB9)"

definition isdigit :: "string \<Rightarrow> bool" where
  "isdigit s = (s \<noteq> [] \<and> list_all isdigit_char s)"

text \<open>
  The conversion of \<open>section_number\<close> and \<open>total_sections\<close>. A bool is an instance of
  \<open>int\<close> and passes; it is kept as the integer it equals.
\<close>

fun coerce_number :: "pyval \<Rightarrow> string \<Rightarrow> exn + int" where
  "coerce_number (PStr s) msg =
     (if isdigit s then
        (if list_all isdecimal s then Inr (int_of_digits s)
         else Inl (ValueError (''invalid literal for int() with base 10: '' @ quoted s)))
      else Inl (ValueError msg))"
| "coerce_number (PInt i) msg = Inr i"
| "coerce_number (PBool b) msg = Inr (if b then 1 else 0)"
| "coerce_number v msg = Inl (ValueError msg)"

text \<open>The dictionary that \<open>validate_section_data\<close> returns for a section.\<close>

record report_section =
  sec_section_number :: int
  sec_total_sections :: int
  sec_title :: pyval
  sec_content :: string
  sec_is_bibliography :: pyval
  sec_sources_used :: pyval
  sec_next_section_needed :: pyval

text \<open>
  The four shapes of the returned dictionary: the initialisation data (\<open>topic\<close> and the
  optional \<open>page_count\<close>, \<open>source_count\<close>, \<open>include_graphics\<close>), \<open>{'search_sources': True}\<close>,
  \<open>{'confirm_sources': b}\<close> and a section.
\<close>

datatype validated =
    VInit string "int option" "int option" "bool option"
  | VSearch
  | VConfirm bool
  | VSection report_section

fun is_list :: "pyval \<Rightarrow> bool" where
  "is_list (PList xs) = True"
| "is_list v = False"

definition validate_section ::
  "(string \<Rightarrow> pyval option) \<Rightarrow> exn + validated" where
  "validate_section d =
     (if d ''section_number'' = None then
        Inl (ValueError ''Missing required field: section_number'')
      else if d ''total_sections'' = None then
        Inl (ValueError ''Missing required field: total_sections'')
      else
        let is_bibliography = (case d ''is_bibliography'' of None \<Rightarrow> PBool False | Some v \<Rightarrow> v)
        in if \<not> truthy is_bibliography \<and>
              (case d ''sources_used'' of
                 None \<Rightarrow> True
               | Some su \<Rightarrow> \<not> truthy su \<or> \<not> is_list su) then
             Inl (ValueError
               ''Non-bibliography sections must include sources_used with at least one source ID'')
           else
             (case coerce_number (case d ''section_number'' of None \<Rightarrow> PNone | Some v \<Rightarrow> v)
                     ''Invalid sectionNumber: must be a number'' of
                Inl e \<Rightarrow> Inl e
              | Inr section_number \<Rightarrow>
                 (case coerce_number (case d ''total_sections'' of None \<Rightarrow> PNone | Some v \<Rightarrow> v)
                         ''Invalid totalSections: must be a number'' of
                    Inl e \<Rightarrow> Inl e
                  | Inr total_sections \<Rightarrow>
                     let title = (case d ''title'' of
                                    None \<Rightarrow>
                                      PStr (''Section '' @
                                        (case d ''section_number'' of
                                           Some (PBool b) \<Rightarrow> str_hashable (PBool b)
                                         | _ \<Rightarrow> str_int section_number))
                                  | Some v \<Rightarrow> v);
                         content0 = (case d ''content'' of None \<Rightarrow> PStr [] | Some v \<Rightarrow> v);
                         content1 = (if content0 = PNone then PStr [] else content0)
                     in (case content1 of
                           PStr content \<Rightarrow>
                             if \<not> truthy is_bibliography \<and> length (strip content) < 10 then
                               Inl (ValueError
                                 ''Content is required for non-bibliography sections and must be meaningful'')
                             else
                               let sources_used0 = (case d ''sources_used'' of
                                                      None \<Rightarrow> PList [] | Some v \<Rightarrow> v);
                                   sources_used = (if sources_used0 = PNone then PList []
                                                   else sources_used0);
                                   next_section_needed = (case d ''next_section_needed'' of
                                                            None \<Rightarrow> PBool True | Some v \<Rightarrow> v)
                               in Inr (VSection
                                    \<lparr>sec_section_number = section_number,
                                     sec_total_sections = total_sections,
                                     sec_title = title,
                                     sec_content = content,
                                     sec_is_bibliography = is_bibliography,
                                     sec_sources_used = sources_used,
                                     sec_next_section_needed = next_section_needed\<rparr>)
                         | _ \<Rightarrow> Inl (ValueError ''Invalid content: must be a string'')))))"

text \<open>
  \<open>validate_section_data\<close>. The later tests of \<open>confirm_sources\<close> in the source repeat the
  first two and are never reached.
\<close>

definition validate_section_data :: "(pyval \<Rightarrow> string) \<Rightarrow> pyval \<Rightarrow> exn + validated" where
  "validate_section_data repr input_data =
     (case input_data of
        PDict kvs \<Rightarrow>
          let d = map_of kvs
          in (case d ''topic'' of
                Some t \<Rightarrow>
                  Inr (VInit (py_str repr t)
                         (map_option (\<lambda>v. int_or_default v DEFAULT_PAGE_COUNT) (d ''page_count''))
                         (map_option (\<lambda>v. int_or_default v DEFAULT_SOURCE_COUNT) (d ''source_count''))
                         (map_option truthy (d ''include_graphics'')))
              | None \<Rightarrow>
                  if (case d ''search_sources'' of None \<Rightarrow> False | Some v \<Rightarrow> truthy v) then
                    Inr VSearch
                  else if (case d ''confirm_sources'' of None \<Rightarrow> False | Some v \<Rightarrow> truthy v) then
                    Inr (VConfirm True)
                  else (case d ''confirm_sources'' of
                          Some v \<Rightarrow> Inr (VConfirm (truthy v))
                        | None \<Rightarrow> validate_section d))
      | _ \<Rightarrow>
          Inl (ValueError (''Expected dictionary input, got <class '' @ quoted (type_name input_data)
                           @ ''>'')))"

section \<open>The workflow controller\<close>

text \<open>
  What the controller does not own: the search service, Python's \<open>repr\<close> of a list or a
  dict, and whether writing to stderr raises.
\<close>

record world =
  w_api :: api
  w_repr :: "pyval \<Rightarrow> string"
  w_stderr :: "exn option"

text \<open>
  The fields of the server object. \<open>self_provider_analysis\<close> is \<open>None\<close> for the empty
  dictionary of a new server; \<open>self_api_calls\<close> counts the requests sent so far through
  \<open>self.europeana_api\<close> and \<open>self.search_api\<close>.
\<close>

record session =
  self_topic :: "string option"
  self_page_count :: int
  self_source_count :: int
  self_sources :: "source list"
  self_report_sections :: "report_section list"
  self_plan :: "plan option"
  self_current_step :: nat
  self_include_graphics :: bool
  self_graphics :: "source list"
  self_provider_analysis :: "provider_analysis option"
  self_api_calls :: nat

definition new_session :: session where
  "new_session =
     \<lparr>self_topic = None, self_page_count = DEFAULT_PAGE_COUNT,
      self_source_count = DEFAULT_SOURCE_COUNT, self_sources = [], self_report_sections = [],
      self_plan = None, self_current_step = 0, self_include_graphics = False,
      self_graphics = [], self_provider_analysis = None, self_api_calls = 0\<rparr>"

subsection \<open>Responses\<close>

text \<open>
  A value in the dictionary of a failure: a text, a list of paragraph issues, a list of
  objects, a list of ints, or the text of the traceback, which is not modelled.
\<close>

datatype jv =
    JStr string
  | JIssues "paragraph_issue list"
  | JVals "pyval list"
  | JInts "int list"
  | JTraceback

record source_summary =
  totalFound :: nat
  requestedSourceCount :: int
  sourcesReturned :: nat
  mediaTypeCounts :: "(string \<times> nat) list"
  sourcesWithPDFContent :: nat
  providersCount :: nat
  graphicsFound :: nat

record source_analysis =
  sa_message :: string
  sa_providerDistribution :: "(string \<times> nat) list"
  sa_diverse :: bool

record source_message =
  sm_confirmationRequired :: bool
  sm_sourceSummary :: source_summary
  sm_sources :: "source list"
  sm_graphics :: "source list"
  sm_sourceAnalysis :: source_analysis
  sm_pdfAnalysis :: string
  sm_sourcesWithContent :: bool
  sm_nextStep :: string

text \<open>
  The dictionary returned for an accepted section, without its \<open>progress\<close> entry (a
  floating point number formatted to one decimal) and without the three fixed reminders.
\<close>

record section_info =
  si_sectionNumber :: int
  si_totalSections :: int
  si_nextSectionNeeded :: pyval
  si_reportSectionsCount :: nat
  si_nextStep :: string
  si_sources :: "source list option"
  si_sourceAnalysisMessage :: "string option"
  si_pdfContentMessage :: "string option"
  si_sourceProviderCount :: nat
  si_imagesAvailable :: bool
  si_images :: "source list option"
  si_warningMessage :: "string option"

text \<open>
  The \<open>text\<close> of a response: a plain string, or \<open>json.dumps\<close> of one of the dictionaries
  the controller builds.
\<close>

datatype payload =
    Plain string
  | InitInfo string int int bool plan string
  | Failure "(string \<times> jv) list"
  | SourcesFound source_message
  | Confirmation string string
  | SectionInfo section_info

text \<open>The returned record; \<open>isError = None\<close> when that key is absent.\<close>

record response =
  content_text :: payload
  isError :: "bool option"

definition ok :: "payload \<Rightarrow> response" where
  "ok p = \<lparr>content_text = p, isError = None\<rparr>"

definition failed :: "(string \<times> jv) list \<Rightarrow> response" where
  "failed d = \<lparr>content_text = Failure d, isError = Some True\<rparr>"

subsection \<open>Initialisation\<close>

definition init_session :: "session \<Rightarrow> string \<Rightarrow> int option \<Rightarrow> int option \<Rightarrow> bool option
    \<Rightarrow> response \<times> session" where
  "init_session s topic page_count source_count include_graphics =
     (let pc = (case page_count of None \<Rightarrow> DEFAULT_PAGE_COUNT | Some v \<Rightarrow> v);
          sc = (case source_count of None \<Rightarrow> DEFAULT_SOURCE_COUNT | Some v \<Rightarrow> v);
          ig = (case include_graphics of None \<Rightarrow> False | Some v \<Rightarrow> v);
          plan = create_plan topic pc
      in (ok (InitInfo topic pc sc ig plan ''Search for sources using the europeana_search tool''),
          s\<lparr>self_topic := Some topic, self_page_count := pc, self_source_count := sc,
            self_include_graphics := ig, self_sources := [], self_graphics := [],
            self_report_sections := [], self_current_step := 0, self_plan := Some plan\<rparr>))"

subsection \<open>Source search\<close>

text \<open>\<open>d[k] += 1\<close>\<close>

definition dict_incr :: "string \<Rightarrow> (string \<times> nat) list \<Rightarrow> (string \<times> nat) list" where
  "dict_incr k d = dict_set k (case map_of d k of None \<Rightarrow> 1 | Some c \<Rightarrow> c + 1) d"

definition count_media :: "(string \<times> nat) list \<Rightarrow> source \<Rightarrow> (string \<times> nat) list" where
  "count_media media_counts src =
     (let media_type = s_media_type src;
          counts1 = dict_incr (if media_type \<in> fst ` set media_counts then media_type else ''OTHER'')
                      media_counts
      in if s_is_pdf src = Some True then dict_incr ''PDF'' counts1 else counts1)"

definition media_counts_of :: "source list \<Rightarrow> (string \<times> nat) list" where
  "media_counts_of srcs =
     foldl count_media
       [(''IMAGE'', 0), (''VIDEO'', 0), (''SOUND'', 0), (''TEXT'', 0), (''PDF'', 0), (''OTHER'', 0)]
       srcs"

definition no_pdf_warning :: string where
  "no_pdf_warning = ''WARNING: No sources with readable PDF content were found. This may limit the ability to create a detailed factual report. DO NOT fabricate information - focus only on what is available in the metadata.''"

text \<open>
  The search branch. No source made by \<open>search_sources\<close> has a \<open>has_pdf\<close> key, so the list
  \<open>pdf_sources\<close> of the source is always empty.
\<close>

definition search_branch :: "world \<Rightarrow> session \<Rightarrow> response \<times> session" where
  "search_branch w s =
     (case self_topic s of
        None \<Rightarrow> (ok (Plain ''Error: No topic specified. Please initialize with a topic first.''), s)
      | Some topic \<Rightarrow>
          if topic = [] then
            (ok (Plain ''Error: No topic specified. Please initialize with a topic first.''), s)
          else
            (case search_sources (w_api w) topic (self_source_count s) (self_api_calls s) of
               (found, analysis, n1) \<Rightarrow>
                 let s1 = s\<lparr>self_sources := found, self_provider_analysis := Some analysis,
                            self_api_calls := n1\<rparr>;
                     media_counts = media_counts_of found;
                     total_found = length found
                 in if total_found = 0 then
                      (failed
                         [(''error'', JStr ''No sources found for the topic. Cannot proceed with report generation.''),
                          (''status'', JStr ''failed''),
                          (''message'', JStr ''No sources could be found on this topic. Please try a different search query or topic.'')],
                       s1)
                    else
                      let s2 = (if self_include_graphics s1 then
                                  (case search_graphics (w_api w) topic 5 n1 of
                                     (gs, n2) \<Rightarrow> s1\<lparr>self_graphics := gs, self_api_calls := n2\<rparr>)
                                else s1);
                          s3 = s2\<lparr>self_current_step := 1\<rparr>;
                          source_summary =
                            \<lparr>totalFound = total_found,
                             requestedSourceCount = self_source_count s3,
                             sourcesReturned = length found,
                             mediaTypeCounts = media_counts,
                             sourcesWithPDFContent = 0,
                             providersCount = total_providers analysis,
                             graphicsFound = (if self_include_graphics s3
                                              then length (self_graphics s3) else 0)\<rparr>;
                          source_analysis =
                            (if diverse_sources analysis then
                               \<lparr>sa_message = ''Found '' @ str_nat (length found) @ '' sources from ''
                                   @ str_nat (total_providers analysis)
                                   @ '' different providers. You should use sources from multiple providers in your report for diverse perspectives.'',
                                sa_providerDistribution = provider_distribution analysis,
                                sa_diverse = True\<rparr>
                             else
                               \<lparr>sa_message = ''All sources are from a single provider: ''
                                   @ primary_provider analysis
                                   @ ''. Please note this limitation in your report.'',
                                sa_providerDistribution = provider_distribution analysis,
                                sa_diverse = False\<rparr>)
                      in (ok (SourcesFound
                               \<lparr>sm_confirmationRequired = True,
                                sm_sourceSummary = source_summary,
                                sm_sources = found,
                                sm_graphics = (if self_include_graphics s3
                                               then self_graphics s3 else []),
                                sm_sourceAnalysis = source_analysis,
                                sm_pdfAnalysis = no_pdf_warning,
                                sm_sourcesWithContent = False,
                                sm_nextStep = ''Please confirm if you want to proceed with generating the report using these sources.''\<rparr>),
                          s3)))"

subsection \<open>Section submission\<close>

text \<open>\<open>validated_input.get(key, default)\<close> on the dictionaries of \<open>validate_section_data\<close>.\<close>

fun get_is_bibliography :: "validated \<Rightarrow> pyval" where
  "get_is_bibliography (VSection sec) = sec_is_bibliography sec"
| "get_is_bibliography v = PBool False"

fun get_sources_used :: "validated \<Rightarrow> pyval option" where
  "get_sources_used (VSection sec) = Some (sec_sources_used sec)"
| "get_sources_used v = None"

fun get_content :: "validated \<Rightarrow> string" where
  "get_content (VSection sec) = sec_content sec"
| "get_content v = []"

text \<open>
  The elements of \<open>sources_used\<close>. For a section that is not a bibliography the validation
  has checked that it is a list.
\<close>

fun list_items :: "pyval \<Rightarrow> pyval list" where
  "list_items (PList xs) = xs"
| "list_items v = []"

text \<open>\<open>source_id - 1\<close>\<close>

fun minus_one :: "pyval \<Rightarrow> exn + int" where
  "minus_one (PInt i) = Inr (i - 1)"
| "minus_one (PBool b) = Inr ((if b then 1 else 0) - 1)"
| "minus_one v = Inl (TypeError (''unsupported operand type(s) for -: '' @ quoted (type_name v)
                                 @ '' and '' @ quoted ''int''))"

text \<open>
  The loop that looks the cited sources up, \<open>self.sources[source_id - 1]\<close> under the guard
  \<open>0 <= source_id - 1 < len(self.sources)\<close>, and collects their providers.
\<close>

fun providers_used_loop :: "source list \<Rightarrow> pyval list \<Rightarrow> exn + string list" where
  "providers_used_loop srcs [] = Inr []"
| "providers_used_loop srcs (source_id # rest) =
     (case minus_one source_id of
        Inl e \<Rightarrow> Inl e
      | Inr k \<Rightarrow>
          (case providers_used_loop srcs rest of
             Inl e \<Rightarrow> Inl e
           | Inr ps \<Rightarrow> Inr (if 0 \<le> k \<and> k < int (length srcs)
                            then s_provider (srcs ! nat k) # ps else ps)))"

text \<open>
  \<open>format_section\<close> followed by \<open>print(..., file=sys.stderr)\<close>. The box is only written to
  stderr; what is kept is the exception the step raises, if any: a title that is not a
  string has no \<open>lower()\<close> when graphics are matched against it, the lookup of the cited
  sources subtracts from each id, and the write itself may fail.
\<close>

definition format_and_print :: "world \<Rightarrow> session \<Rightarrow> report_section \<Rightarrow> exn option" where
  "format_and_print w s sec =
     (if \<not> truthy (sec_is_bibliography sec) \<and> self_include_graphics s \<and> self_graphics s \<noteq> []
         \<and> (case sec_title sec of PStr t \<Rightarrow> False | _ \<Rightarrow> True) then
        Some (AttributeError (quoted (type_name (sec_title sec)) @ '' object has no attribute ''
                              @ quoted ''lower''))
      else
        (case (if \<not> truthy (sec_is_bibliography sec) \<and> truthy (sec_sources_used sec)
               then providers_used_loop (self_sources s) (list_items (sec_sources_used sec))
               else Inr []) of
           Inl e \<Rightarrow> Some e
         | Inr ps \<Rightarrow> w_stderr w))"

text \<open>\<open>xs[i]\<close>: an index from \<open>-len(xs)\<close> up to \<open>-1\<close> counts from the end.\<close>

definition py_index :: "'a list \<Rightarrow> int \<Rightarrow> exn + 'a" where
  "py_index xs i =
     (if 0 \<le> i \<and> i < int (length xs) then Inr (xs ! nat i)
      else if i < 0 \<and> - int (length xs) \<le> i then Inr (xs ! nat (int (length xs) + i))
      else Inl (IndexError ''list index out of range''))"

definition no_content_warning :: string where
  "no_content_warning = ''WARNING: None of the cited sources have extractable content. This severely limits the ability to make factual claims. DO NOT fabricate information - focus only on what is available in the metadata.''"

definition no_pdf_used_message :: string where
  "no_pdf_used_message = ''No sources with PDF content were used in this section. Be careful to limit claims to what is explicitly available in metadata.''"

text \<open>\<open>self.plan["current_section"] = validated_input['section_number']\<close>, when there is a plan.\<close>

definition set_plan_pointer :: "session \<Rightarrow> report_section \<Rightarrow> session" where
  "set_plan_pointer s sec =
     s\<lparr>self_plan := map_option (\<lambda>p. p\<lparr>plan_current_section := sec_section_number sec\<rparr>)
                        (self_plan s)\<rparr>"

text \<open>The text of \<open>next_step\<close>; indexing the plan's sections may raise.\<close>

definition next_step_of :: "session \<Rightarrow> report_section \<Rightarrow> exn + string" where
  "next_step_of s sec =
     (case self_plan s of
        Some plan \<Rightarrow>
          (if sec_section_number sec < int (length (plan_sections plan)) then
             (case py_index (plan_sections plan) (sec_section_number sec) of
                Inl e \<Rightarrow> Inl e
              | Inr next_stub \<Rightarrow>
                  Inr (''Create section '' @ str_int (sec_section_number sec + 1)
                       @ '': '' @ stub_title next_stub))
           else Inr ''Report complete'')
      | None \<Rightarrow>
          Inr (if \<not> truthy (sec_next_section_needed sec) then ''Report complete''
               else ''Continue writing the report''))"

text \<open>
  The source usage analysis: \<open>source_analysis_message\<close>, \<open>pdf_content_message\<close> and
  \<open>warning_message\<close>. No source has a \<open>has_pdf\<close> key, so \<open>pdf_sources_used\<close> stays empty.
\<close>

definition usage_analysis ::
  "session \<Rightarrow> report_section \<Rightarrow> exn + (string option \<times> string option \<times> string option)" where
  "usage_analysis s sec =
     (if \<not> truthy (sec_is_bibliography sec) \<and> truthy (sec_sources_used sec) then
        (case providers_used_loop (self_sources s) (list_items (sec_sources_used sec)) of
           Inl e \<Rightarrow> Inl e
         | Inr providers_used \<Rightarrow>
             Inr (Some (if length (remdups providers_used) > 1 then
                          ''This section uses sources from ''
                          @ str_nat (length (remdups providers_used))
                          @ '' different providers. Continue using diverse sources in subsequent sections.''
                        else (case providers_used of
                                p # ps \<Rightarrow>
                                  ''This section uses sources from only one provider: '' @ p
                                  @ ''. Try to incorporate sources from other providers in the next sections if possible.''
                              | [] \<Rightarrow>
                                  ''This section doesn't use any sources. Please include citations in your content.'')),
                  Some no_pdf_used_message,
                  Some no_content_warning))
      else Inr (None, None, None))"

definition section_response ::
  "session \<Rightarrow> report_section \<Rightarrow> string \<Rightarrow> string option \<times> string option \<times> string option
     \<Rightarrow> response" where
  "section_response s sec next_step messages =
     (case messages of
        (source_analysis_message, pdf_content_message, warning_message) \<Rightarrow>
          ok (SectionInfo
            \<lparr>si_sectionNumber = sec_section_number sec,
             si_totalSections = sec_total_sections sec,
             si_nextSectionNeeded = sec_next_section_needed sec,
             si_reportSectionsCount = length (self_report_sections s),
             si_nextStep = next_step,
             si_sources = (if truthy (sec_is_bibliography sec) then Some (self_sources s) else None),
             si_sourceAnalysisMessage = source_analysis_message,
             si_pdfContentMessage = pdf_content_message,
             si_sourceProviderCount =
               (case self_provider_analysis s of
                  None \<Rightarrow> 0 | Some a \<Rightarrow> length (provider_distribution a)),
             si_imagesAvailable = (if self_include_graphics s
                                   then length (self_graphics s) > 0 else False),
             si_images = (if self_include_graphics s \<and> self_graphics s \<noteq> []
                          then Some (take 3 (self_graphics s)) else None),
             si_warningMessage = warning_message\<rparr>))"

text \<open>
  The part of the section path after the section was appended: formatting and printing,
  the plan pointer, the progress (of which only the division is kept) and the analysis
  of the cited sources. It returns the exception or the response, and the session as it
  is at that moment.
\<close>

definition after_append :: "world \<Rightarrow> session \<Rightarrow> report_section \<Rightarrow> (exn + response) \<times> session" where
  "after_append w s sec =
     (case format_and_print w s sec of
        Some e \<Rightarrow> (Inl e, s)
      | None \<Rightarrow>
          let s1 = set_plan_pointer s sec
          in (case next_step_of s1 sec of
                Inl e \<Rightarrow> (Inl e, s1)
              | Inr next_step \<Rightarrow>
                  if sec_total_sections sec = 0 then
                    (Inl (ZeroDivisionError ''division by zero''), s1)
                  else
                    (case usage_analysis s1 sec of
                       Inl e \<Rightarrow> (Inl e, s1)
                     | Inr messages \<Rightarrow> (Inr (section_response s1 sec next_step messages), s1))))"

text \<open>
  The citation checks of a section that is not a bibliography: the rejection to return,
  or None when the section passes.
\<close>

definition citation_gate :: "validated \<Rightarrow> exn + response option" where
  "citation_gate validated_input =
     (if \<not> truthy (get_is_bibliography validated_input) then
        (if \<not> (case get_sources_used validated_input of None \<Rightarrow> False | Some su \<Rightarrow> truthy su) then
           Inr (Some (failed
             [(''error'', JStr ''No sources cited. Every non-bibliography section must cite specific sources.''),
              (''status'', JStr ''failed''),
              (''message'', JStr ''Please include sources_used parameter with IDs of sources used in this section.'')]))
         else
           let content = get_content validated_input;
               sources_used = list_items (case get_sources_used validated_input of
                                            None \<Rightarrow> PList [] | Some su \<Rightarrow> su);
               content_validation = verify_content_has_citations content sources_used
           in if \<not> pc_valid content_validation then
                Inr (Some (failed
                  [(''error'', JStr (''Content validation failed: '' @ pc_message content_validation)),
                   (''status'', JStr ''failed''),
                   (''paragraph_issues'',
                      JIssues (case pc_paragraph_issues content_validation of
                                 None \<Rightarrow> [] | Some issues \<Rightarrow> issues)),
                   (''message'', JStr ''Ensure every substantial paragraph contains citations to source material.'')]))
              else
                (case verify_citations content sources_used of
                   Inl e \<Rightarrow> Inl e
                 | Inr citation_check \<Rightarrow>
                     if \<not> vc_valid citation_check then
                       Inr (Some (failed
                         [(''error'', JStr (''Citation validation failed: '' @ vc_message citation_check)),
                          (''status'', JStr ''failed''),
                          (''uncited_sources'', JVals (vc_uncited_sources citation_check)),
                          (''invalid_citations'', JInts (vc_invalid_citations citation_check)),
                          (''uncited_paragraphs'', JIssues (vc_uncited_paragraphs citation_check)),
                          (''message'', JStr ''Every source in sources_used must be cited in the content, and every paragraph must include at least one citation.'')]))
                     else Inr None))
      else Inr None)"

text \<open>
  The section path, entered with the result of the second call of
  \<open>validate_section_data\<close>: the citation checks, the raising of \<open>total_sections\<close> to
  \<open>section_number\<close>, the append and what follows it. The advisory
  \<open>analyze_citation_patterns\<close> only sets a warning that is overwritten before it is used,
  and is left out.
\<close>

definition submit_section :: "world \<Rightarrow> session \<Rightarrow> validated \<Rightarrow> (exn + response) \<times> session" where
  "submit_section w s validated_input =
     (case citation_gate validated_input of
        Inl e \<Rightarrow> (Inl e, s)
      | Inr (Some rejection) \<Rightarrow> (Inr rejection, s)
      | Inr None \<Rightarrow>
          (case validated_input of
             VSection sec0 \<Rightarrow>
               let sec = (if sec_section_number sec0 > sec_total_sections sec0
                          then sec0\<lparr>sec_total_sections := sec_section_number sec0\<rparr> else sec0);
                   s1 = s\<lparr>self_report_sections := self_report_sections s @ [sec]\<rparr>
               in after_append w s1 sec
           | _ \<Rightarrow> (Inl (KeyError (quoted ''section_number'')), s)))"

subsection \<open>The entry point\<close>

text \<open>The body of the \<open>try\<close> of \<open>process_section\<close>.\<close>

definition process_section_body :: "world \<Rightarrow> session \<Rightarrow> pyval \<Rightarrow> (exn + response) \<times> session" where
  "process_section_body w s input_data =
     (case validate_section_data (w_repr w) input_data of
        Inl e \<Rightarrow> (Inl e, s)
      | Inr (VInit topic page_count source_count include_graphics) \<Rightarrow>
          (case init_session s topic page_count source_count include_graphics of
             (r, s') \<Rightarrow> (Inr r, s'))
      | Inr VSearch \<Rightarrow> (case search_branch w s of (r, s') \<Rightarrow> (Inr r, s'))
      | Inr (VConfirm True) \<Rightarrow>
          (Inr (ok (Confirmation ''Source selection confirmed. Proceeding with report generation.''
                      ''Create bibliography section'')),
           s\<lparr>self_current_step := 2\<rparr>)
      | Inr data \<Rightarrow>
          (case validate_section_data (w_repr w) input_data of
             Inl e \<Rightarrow> (Inl e, s)
           | Inr validated_input \<Rightarrow> submit_section w s validated_input))"

text \<open>
  \<open>process_section\<close>: a ValueError and any other exception of the body are caught and
  turned into a failure response.
\<close>

definition exn_str :: "exn \<Rightarrow> string" where
  "exn_str e = (case e of ValueError m \<Rightarrow> m | TypeError m \<Rightarrow> m | IndexError m \<Rightarrow> m
                | AttributeError m \<Rightarrow> m | ZeroDivisionError m \<Rightarrow> m | KeyError m \<Rightarrow> m
                | OtherError m \<Rightarrow> m)"

definition process_section :: "world \<Rightarrow> session \<Rightarrow> pyval \<Rightarrow> response \<times> session" where
  "process_section w s input_data =
     (case process_section_body w s input_data of
        (Inr r, s') \<Rightarrow> (r, s')
      | (Inl (ValueError m), s') \<Rightarrow>
          (failed [(''error'', JStr (''Validation error: '' @ m)),
                   (''status'', JStr ''failed''),
                   (''detailed_message'', JTraceback)], s')
      | (Inl e, s') \<Rightarrow>
          (failed [(''error'', JStr (''Unexpected error: '' @ exn_str e)),
                   (''status'', JStr ''failed''),
                   (''detailed_message'', JTraceback)], s'))"

subsection \<open>Runs\<close>

text \<open>A sequence of calls on one server.\<close>

definition run_calls :: "world \<Rightarrow> session \<Rightarrow> pyval list \<Rightarrow> session" where
  "run_calls w s inputs = foldl (\<lambda>s' input_data. snd (process_section w s' input_data)) s inputs"

text \<open>An example: a topic is set, two sources are found, and a section citing source 5 is submitted.\<close>

definition example_world :: world where
  "example_world = \<lparr>w_api = example_api, w_repr = (\<lambda>v. []), w_stderr = None\<rparr>"

definition example_init :: pyval where
  "example_init = PDict [(''topic'', PStr ''topic''), (''source_count'', PInt 2)]"

definition example_search :: pyval where
  "example_search = PDict [(''search_sources'', PBool True)]"

definition example_section_fields :: "int \<Rightarrow> (string \<times> pyval) list" where
  "example_section_fields source_id =
     [(''section_number'', PInt 2), (''total_sections'', PInt 9),
      (''title'', PStr ''Introduction''),
      (''content'', PStr (''This is a sufficiently long paragraph citing a source [''
                         @ str_int source_id @ ''] properly.'')),
      (''sources_used'', PList [PInt source_id]),
      (''next_section_needed'', PBool True)]"

definition example_section :: "int \<Rightarrow> pyval" where
  "example_section source_id = PDict (example_section_fields source_id)"

text \<open>
  What holds of a recorded section: when it is not a bibliography, \<open>sources_used\<close> is a
  non-empty list, each element of which equals an id cited in a qualifying paragraph of
  the content, and the stripped content has at least 10 characters.
\<close>

definition recorded_ok :: "report_section \<Rightarrow> bool" where
  "recorded_ok sec =
     (\<not> truthy (sec_is_bibliography sec) \<longrightarrow>
        (\<exists>ids. sec_sources_used sec = PList ids \<and> ids \<noteq> []
           \<and> (\<forall>v\<in>set ids. \<exists>c. as_int v = Some c
                 \<and> (\<exists>p\<in>set (paragraphs (sec_content sec)).
                       qualifying p \<and> c \<in> set (paragraph_citations p))))
        \<and> 10 \<le> length (strip (sec_content sec)))"

text \<open>The section that the example run records.\<close>

definition example_recorded :: report_section where
  "example_recorded =
     \<lparr>sec_section_number = 2, sec_total_sections = 9, sec_title = PStr ''Introduction'',
      sec_content = ''This is a sufficiently long paragraph citing a source [5] properly.'',
      sec_is_bibliography = PBool False, sec_sources_used = PList [PInt 5],
      sec_next_section_needed = PBool True\<rparr>"

section \<open>Properties of the citation verifier\<close>

lemma set_set_update: "set (set_update cited cites) = set cited \<union> set cites"
  unfolding set_update_def by (induction cites arbitrary: cited) auto

lemma verify_loop_valid:
  "fst (verify_loop su ips (v, cited, issues))
     = (v \<and> (\<forall>(i, p)\<in>set ips. qualifying p \<longrightarrow> cites_ok su p))"
proof (induction ips arbitrary: v cited issues)
  case Nil
  show ?case by simp
next
  case (Cons ip ips)
  obtain i p where ip: "ip = (i, p)" by (cases ip)
  show ?case
    unfolding ip
    by (auto simp: Cons.IH qualifying_def cites_ok_def Let_def filter_empty_conv split: prod.splits)
qed

lemma verify_loop_cited:
  "set (fst (snd (verify_loop su ips (v, cited, issues))))
     = set cited \<union> (\<Union>(i, p)\<in>set ips. if qualifying p then set (paragraph_citations p) else {})"
proof (induction ips arbitrary: v cited issues)
  case Nil
  show ?case by simp
next
  case (Cons ip ips)
  obtain i p where ip: "ip = (i, p)" by (cases ip)
  show ?case
    unfolding ip
    by (auto simp: Cons.IH qualifying_def Let_def set_set_update split: prod.splits if_splits)
qed

lemma uncited_ints:
  "uncited (map PInt ids) cited = Inr (map PInt (filter (\<lambda>i. i \<notin> set cited) ids))"
  by (induction ids) auto

lemma int_in_list_ints: "int_in_list c (map PInt ids) = (c \<in> set ids)"
  by (induction ids) (auto simp: int_in_list_def)

lemma map_snd_enumerate0: "map snd (enumerate0 xs) = xs"
  by (simp add: enumerate0_def)

lemma set_enumerate0: "snd ` set (enumerate0 xs) = set xs"
  using map_snd_enumerate0 [of xs] by (metis set_map)

lemma presence_loop_index:
  "iss \<in> set (presence_loop su ips) \<Longrightarrow> \<exists>p. (pi_index iss, p) \<in> set ips \<and> qualifying p"
proof (induction ips)
  case Nil
  then show ?case by simp
next
  case (Cons ip ips)
  obtain i p where ip: "ip = (i, p)" by (cases ip)
  from Cons show ?case
    unfolding ip by (auto simp: qualifying_def Let_def split: if_splits)
qed

lemma enumerate0_nth: "(i, p) \<in> set (enumerate0 xs) \<Longrightarrow> i < length xs \<and> xs ! i = p"
  by (auto simp: enumerate0_def in_set_zip)

lemma ball_enumerate0:
  "(\<forall>(i, p)\<in>set (enumerate0 xs). P p) = (\<forall>p\<in>set xs. P p)"
proof -
  have "(\<forall>(i, p)\<in>set (enumerate0 xs). P p) = (\<forall>p\<in>snd ` set (enumerate0 xs). P p)"
    by (auto simp: case_prod_beta)
  then show ?thesis by (simp only: set_enumerate0)
qed

lemma Union_enumerate0:
  "(\<Union>(i, p)\<in>set (enumerate0 xs). F p) = (\<Union>p\<in>set xs. F p)"
proof -
  have "(\<Union>(i, p)\<in>set (enumerate0 xs). F p) = (\<Union>p\<in>snd ` set (enumerate0 xs). F p)"
    by (auto simp: case_prod_beta)
  then show ?thesis by (simp only: set_enumerate0)
qed

lemma verify_citations_ints:
  "verify_citations content (map PInt ids) = Inr r \<Longrightarrow>
     vc_valid r =
       ((\<forall>p\<in>set (paragraphs content). qualifying p \<longrightarrow>
            paragraph_citations p \<noteq> [] \<and> (\<forall>c\<in>set (paragraph_citations p). c \<in> set ids))
        \<and> (\<forall>s\<in>set ids. \<exists>p\<in>set (paragraphs content). qualifying p \<and> s \<in> set (paragraph_citations p)))
   \<and> vc_uncited_sources r =
       map PInt (filter (\<lambda>s. \<not> (\<exists>p\<in>set (paragraphs content). qualifying p \<and> s \<in> set (paragraph_citations p))) ids)"
proof -
  assume a: "verify_citations content (map PInt ids) = Inr r"
  let ?su = "map PInt ids"
  let ?ips = "enumerate0 (paragraphs content)"
  obtain valid cited issues where l: "verify_loop ?su ?ips (True, [], []) = (valid, cited, issues)"
    by (cases "verify_loop ?su ?ips (True, [], [])") auto
  have v: "valid = (\<forall>p\<in>set (paragraphs content). qualifying p \<longrightarrow> cites_ok ?su p)"
    using verify_loop_valid [of ?su ?ips True "[]" "[]"] l
    by (simp add: ball_enumerate0)
  have c: "set cited = (\<Union>p\<in>set (paragraphs content). if qualifying p then set (paragraph_citations p) else {})"
    using verify_loop_cited [of ?su ?ips True "[]" "[]"] l
    by (simp add: Union_enumerate0)
  have cm: "\<And>s. (s \<in> set cited) = (\<exists>p\<in>set (paragraphs content). qualifying p \<and> s \<in> set (paragraph_citations p))"
    unfolding c by (auto split: if_splits)
  have inv: "valid \<Longrightarrow> filter (\<lambda>cite. \<not> int_in_list cite ?su) cited = []"
    unfolding v filter_empty_conv by (auto simp: cm cites_ok_def)
  from a l have r: "r = \<lparr>vc_valid = (if filter (\<lambda>cite. \<not> int_in_list cite ?su) cited \<noteq> [] then False
                                       else if filter (\<lambda>i. i \<notin> set cited) ids \<noteq> [] then False else valid),
                       vc_uncited_sources = map PInt (filter (\<lambda>i. i \<notin> set cited) ids),
                       vc_invalid_citations = filter (\<lambda>cite. \<not> int_in_list cite ?su) cited,
                       vc_uncited_paragraphs = issues,
                       vc_message = verify_message (map PInt (filter (\<lambda>i. i \<notin> set cited) ids))
                                      (filter (\<lambda>cite. \<not> int_in_list cite ?su) cited) issues\<rparr>"
    by (auto simp: verify_citations_def uncited_ints Let_def)
  have u: "vc_uncited_sources r = map PInt (filter (\<lambda>i. i \<notin> set cited) ids)"
    by (simp add: r)
  have "vc_valid r = (valid \<and> filter (\<lambda>i. i \<notin> set cited) ids = [])"
    using inv by (auto simp: r)
  also have "\<dots> = (valid \<and> (\<forall>s\<in>set ids. s \<in> set cited))"
    by (auto simp: filter_empty_conv)
  finally have "vc_valid r = (valid \<and> (\<forall>s\<in>set ids. s \<in> set cited))" .
  then show ?thesis
    unfolding u by (simp add: v cm cites_ok_def int_in_list_ints)
qed

lemma verify_citations_ints_total:
  "\<exists>r. verify_citations content (map PInt ids) = Inr r"
  by (auto simp: verify_citations_def uncited_ints Let_def split: prod.splits)

text \<open>
  C1, as the code has it. Full verification reads the citations of the qualifying
  paragraphs only (stripped length at least 20); a shorter paragraph is skipped before
  its tokens are looked for. For a \<open>sources_used\<close> list of ints it returns a result, and
  the result is valid exactly when every qualifying paragraph holds a citation token,
  every id cited in a qualifying paragraph is in \<open>sources_used\<close>, and every id of
  \<open>sources_used\<close> is cited in some qualifying paragraph. In particular, when the content
  has a qualifying paragraph and each qualifying paragraph cites 1 and nothing else, the
  result for \<open>[1, 2]\<close> is invalid and its \<open>uncited_sources\<close> is \<open>[2]\<close>.
\<close>

theorem verify_citations_valid_only_if:
  "(\<exists>r. verify_citations content (map PInt ids) = Inr r \<and>
        (vc_valid r \<longleftrightarrow>
           (\<forall>p\<in>set (paragraphs content). qualifying p \<longrightarrow>
               paragraph_citations p \<noteq> [] \<and> (\<forall>c\<in>set (paragraph_citations p). c \<in> set ids))
           \<and> (\<forall>s\<in>set ids. \<exists>p\<in>set (paragraphs content).
                  qualifying p \<and> s \<in> set (paragraph_citations p))))
   \<and> ((\<exists>p\<in>set (paragraphs content). qualifying p)
        \<and> (\<forall>p\<in>set (paragraphs content). qualifying p \<longrightarrow> set (paragraph_citations p) = {1})
      \<longrightarrow> (\<exists>r. verify_citations content [PInt 1, PInt 2] = Inr r
                \<and> \<not> vc_valid r \<and> vc_uncited_sources r = [PInt 2]))"
proof (intro conjI impI)
  obtain r where r: "verify_citations content (map PInt ids) = Inr r"
    using verify_citations_ints_total by blast
  from verify_citations_ints [OF r] r
  show "\<exists>r. verify_citations content (map PInt ids) = Inr r \<and>
        (vc_valid r \<longleftrightarrow>
           (\<forall>p\<in>set (paragraphs content). qualifying p \<longrightarrow>
               paragraph_citations p \<noteq> [] \<and> (\<forall>c\<in>set (paragraph_citations p). c \<in> set ids))
           \<and> (\<forall>s\<in>set ids. \<exists>p\<in>set (paragraphs content).
                  qualifying p \<and> s \<in> set (paragraph_citations p)))"
    by blast
next
  assume h: "(\<exists>p\<in>set (paragraphs content). qualifying p)
        \<and> (\<forall>p\<in>set (paragraphs content). qualifying p \<longrightarrow> set (paragraph_citations p) = {1})"
  obtain r where r: "verify_citations content (map PInt [1, 2]) = Inr r"
    using verify_citations_ints_total by blast
  have c1: "\<exists>p\<in>set (paragraphs content). qualifying p \<and> (1::int) \<in> set (paragraph_citations p)"
    using h by auto
  have c2: "\<not> (\<exists>p\<in>set (paragraphs content). qualifying p \<and> (2::int) \<in> set (paragraph_citations p))"
    using h by auto
  from verify_citations_ints [OF r] have
    v: "vc_valid r \<longrightarrow> (\<forall>s\<in>set [1, 2::int]. \<exists>p\<in>set (paragraphs content).
                  qualifying p \<and> s \<in> set (paragraph_citations p))"
    and u: "vc_uncited_sources r = map PInt (filter (\<lambda>s. \<not> (\<exists>p\<in>set (paragraphs content).
                  qualifying p \<and> s \<in> set (paragraph_citations p))) [1, 2])"
    by blast+
  from v c2 have nv: "\<not> vc_valid r" by simp
  from u c1 c2 have "vc_uncited_sources r = [PInt 2]" by simp
  with nv r show "\<exists>r. verify_citations content [PInt 1, PInt 2] = Inr r
                \<and> \<not> vc_valid r \<and> vc_uncited_sources r = [PInt 2]"
    by simp
qed

lemma example_paragraphs:
  "paragraphs ''This is a sufficiently long paragraph citing a source [1] properly.''
     = [''This is a sufficiently long paragraph citing a source [1] properly.'']"
  by code_simp

lemma example_qualifying:
  "qualifying ''This is a sufficiently long paragraph citing a source [1] properly.''"
  by code_simp

lemma example_citations:
  "paragraph_citations ''This is a sufficiently long paragraph citing a source [1] properly.'' = [1]"
  by code_simp

theorem verify_citations_valid_only_if_witness:
  "\<exists>r. verify_citations ''This is a sufficiently long paragraph citing a source [1] properly.''
          [PInt 1, PInt 2] = Inr r
       \<and> \<not> vc_valid r \<and> vc_uncited_sources r = [PInt 2]"
  using verify_citations_valid_only_if
          [of "''This is a sufficiently long paragraph citing a source [1] properly.''" "[1, 2]"]
  by (simp only: example_paragraphs) (simp add: example_qualifying example_citations)

text \<open>
  C1, as stated, fails in two ways, both through a paragraph under 20 characters. A
  content whose long paragraph cites 1 and whose short paragraph cites 7 is valid for
  \<open>sources_used = [1]\<close>, although the cited id 7 is not in the list. And the content
  \<open>See [1].\<close>, which cites only 1, gives \<open>uncited_sources = [1, 2]\<close> for \<open>[1, 2]\<close>, since it
  has no qualifying paragraph.
\<close>

theorem verify_citations_skips_short_paragraphs:
  "verify_citations
     (''This is a sufficiently long paragraph citing a source [1] properly.''
      @ [CHR 0x0A, CHR 0x0A] @ ''See also [7].'') [PInt 1]
     = Inr \<lparr>vc_valid = True, vc_uncited_sources = [], vc_invalid_citations = [],
              vc_uncited_paragraphs = [],
              vc_message = ''All citations validated successfully.''\<rparr>
   \<and> paragraphs
       (''This is a sufficiently long paragraph citing a source [1] properly.''
        @ [CHR 0x0A, CHR 0x0A] @ ''See also [7].'')
     = [''This is a sufficiently long paragraph citing a source [1] properly.'',
        ''See also [7].'']
   \<and> paragraph_citations ''See also [7].'' = [7]
   \<and> verify_citations ''See [1].'' [PInt 1, PInt 2]
     = Inr \<lparr>vc_valid = False, vc_uncited_sources = [PInt 1, PInt 2],
              vc_invalid_citations = [], vc_uncited_paragraphs = [],
              vc_message = ''Sources listed but not cited in content: 1, 2''\<rparr>
   \<and> paragraph_citations ''See [1].'' = [1]"
  by code_simp

text \<open>
  C2. Presence check, for a non-empty \<open>sources_used\<close>: every reported issue points at a
  qualifying paragraph, so a paragraph whose stripped length is under 20 is exempt; the
  content \<open>Short.\<close> passes with no issue; and a content that is one qualifying paragraph
  without any citation token fails, for \<open>sources_used = [1]\<close>, with exactly one issue.
\<close>

theorem presence_check_exempts_short_paragraphs:
  "sources_used \<noteq> [] \<longrightarrow>
     (\<exists>issues. pc_paragraph_issues (verify_content_has_citations content sources_used) = Some issues
        \<and> pc_valid (verify_content_has_citations content sources_used) = (issues = [])
        \<and> (\<forall>iss\<in>set issues. pi_index iss < length (paragraphs content)
              \<and> qualifying (paragraphs content ! pi_index iss)))
   \<and> pc_valid (verify_content_has_citations ''Short.'' sources_used)
   \<and> pc_paragraph_issues (verify_content_has_citations ''Short.'' sources_used) = Some []
   \<and> (\<forall>p. paragraphs content = [p] \<and> qualifying p \<and> paragraph_citations p = [] \<longrightarrow>
          \<not> pc_valid (verify_content_has_citations content [PInt 1])
          \<and> (\<exists>iss. pc_paragraph_issues (verify_content_has_citations content [PInt 1]) = Some [iss]))"
proof (intro impI conjI allI)
  assume ne: "sources_used \<noteq> []"
  let ?issues = "presence_loop sources_used (enumerate0 (paragraphs content))"
  have "\<forall>iss\<in>set ?issues. pi_index iss < length (paragraphs content)
              \<and> qualifying (paragraphs content ! pi_index iss)"
    using presence_loop_index enumerate0_nth by metis
  with ne show "\<exists>issues. pc_paragraph_issues (verify_content_has_citations content sources_used) = Some issues
        \<and> pc_valid (verify_content_has_citations content sources_used) = (issues = [])
        \<and> (\<forall>iss\<in>set issues. pi_index iss < length (paragraphs content)
              \<and> qualifying (paragraphs content ! pi_index iss))"
    by (simp add: verify_content_has_citations_def Let_def)
next
  assume ne: "sources_used \<noteq> []"
  have p: "paragraphs ''Short.'' = [''Short.'']" by code_simp
  have s: "length (strip ''Short.'') < 20" by code_simp
  from ne p s show "pc_valid (verify_content_has_citations ''Short.'' sources_used)"
    by (simp add: verify_content_has_citations_def Let_def enumerate0_def)
  from ne p s show "pc_paragraph_issues (verify_content_has_citations ''Short.'' sources_used) = Some []"
    by (simp add: verify_content_has_citations_def Let_def enumerate0_def)
next
  fix p
  assume h: "paragraphs content = [p] \<and> qualifying p \<and> paragraph_citations p = []"
  then have l: "presence_loop [PInt 1] (enumerate0 (paragraphs content))
                 = [\<lparr>pi_index = 0, pi_text = excerpt p, pi_issue = ''Paragraph contains no citations''\<rparr>]"
    by (simp add: enumerate0_def qualifying_def)
  show "\<not> pc_valid (verify_content_has_citations content [PInt 1])"
    by (simp add: verify_content_has_citations_def Let_def l)
  show "\<exists>iss. pc_paragraph_issues (verify_content_has_citations content [PInt 1]) = Some [iss]"
    by (simp add: verify_content_has_citations_def Let_def l)
qed

lemma example2_paragraphs:
  "paragraphs ''This is a long enough paragraph with no citation marker at all.''
     = [''This is a long enough paragraph with no citation marker at all.'']"
  by code_simp

lemma example2_qualifying:
  "qualifying ''This is a long enough paragraph with no citation marker at all.''"
  by code_simp

lemma example2_citations:
  "paragraph_citations ''This is a long enough paragraph with no citation marker at all.'' = []"
  by code_simp

theorem presence_check_exempts_short_paragraphs_witness:
  "[PInt 1] \<noteq> []
   \<and> pc_valid (verify_content_has_citations ''Short.'' [PInt 1])
   \<and> pc_paragraph_issues (verify_content_has_citations ''Short.'' [PInt 1]) = Some []
   \<and> \<not> pc_valid (verify_content_has_citations
          ''This is a long enough paragraph with no citation marker at all.'' [PInt 1])
   \<and> (\<exists>iss. pc_paragraph_issues (verify_content_has_citations
          ''This is a long enough paragraph with no citation marker at all.'' [PInt 1]) = Some [iss])"
  using presence_check_exempts_short_paragraphs
          [of "[PInt 1]" "''This is a long enough paragraph with no citation marker at all.''"]
        example2_paragraphs example2_qualifying example2_citations
  by simp

section \<open>Properties of the report planner\<close>

lemma create_plan_total:
  "1 \<le> page_count \<Longrightarrow>
     plan_total_sections (create_plan topic page_count) = min (page_count * 2 + 1) 20 + 1"
  by (auto simp: create_plan_def Let_def min_def)

text \<open>
  C6. The plan size. The plan returned for \<open>page_count = 100\<close> has 21 sections and reports
  \<open>total_sections = 21\<close>: the 20 counted by \<open>min (page_count * 2 + 1) 20\<close> and the
  conclusion appended after them.
\<close>

theorem create_plan_100_has_21_sections:
  "plan_total_sections (create_plan topic 100) = 21
   \<and> length (plan_sections (create_plan topic 100)) = 21
   \<and> plan_total_sections (create_plan topic 100) \<noteq> min (100 * 2 + 1) 20"
  by (simp add: create_plan_def Let_def)

section \<open>Properties of the provider analysis\<close>

lemma firsts_snoc:
  "firsts (xs @ [x]) = (if x \<in> set (firsts xs) then firsts xs else firsts xs @ [x])"
  by (simp add: firsts_def)

lemma set_firsts: "set (firsts xs) = set xs"
  by (induction xs rule: rev_induct) (auto simp: firsts_snoc firsts_def)

lemma distinct_firsts: "distinct (firsts xs)"
  by (induction xs rule: rev_induct) (auto simp: firsts_snoc firsts_def)

lemma find_snoc:
  "find P (xs @ [x]) = (case find P xs of Some y \<Rightarrow> Some y | None \<Rightarrow> if P x then Some x else None)"
  by (induction xs) auto

lemma find_firsts: "find P (firsts xs) = find P xs"
proof (induction xs rule: rev_induct)
  case Nil
  show ?case by (simp add: firsts_def)
next
  case (snoc x xs)
  show ?case
  proof (cases "x \<in> set xs")
    case True
    then have "find P xs = None \<Longrightarrow> \<not> P x"
      by (auto simp: find_None_iff)
    with True snoc show ?thesis
      by (auto simp: firsts_snoc set_firsts find_snoc split: option.splits)
  next
    case False
    with snoc show ?thesis
      by (simp add: firsts_snoc set_firsts find_snoc)
  qed
qed

lemma dict_set_present:
  "k \<in> fst ` set d \<Longrightarrow> dict_set k v d = map (\<lambda>(k', v'). if k' = k then (k', v) else (k', v')) d"
  by (simp add: dict_set_def)

lemma dict_set_absent: "k \<notin> fst ` set d \<Longrightarrow> dict_set k v d = d @ [(k, v)]"
  by (simp add: dict_set_def)

lemma count_list_snoc: "count_list (xs @ [x]) y = count_list xs y + (if x = y then 1 else 0)"
  by (induction xs) auto

text \<open>The dictionary after the counting loop: each provider, in order of first occurrence, with its number of occurrences.\<close>

lemma provider_counts_eq:
  "foldl count_provider [] sources
     = map (\<lambda>p. (p, count_list (map s_provider sources) p)) (firsts (map s_provider sources))"
proof (induction sources rule: rev_induct)
  case Nil
  show ?case by (simp add: firsts_def)
next
  case (snoc src sources)
  let ?ps = "map s_provider sources"
  let ?p = "s_provider src"
  let ?d = "map (\<lambda>q. (q, count_list ?ps q)) (firsts ?ps)"
  have keys: "fst ` set ?d = set ?ps"
    by (auto simp: set_firsts image_iff)
  have step: "foldl count_provider [] (sources @ [src]) = count_provider ?d src"
    by (simp add: snoc.IH)
  show ?case
  proof (cases "?p \<in> set ?ps")
    case True
    have m: "map_of ?d ?p = Some (count_list ?ps ?p)"
      using True by (simp add: map_of_map_restrict set_firsts)
    have "count_provider ?d src = dict_set ?p (count_list ?ps ?p + 1) ?d"
      using True keys m by (simp add: count_provider_def Let_def)
    also have "\<dots> = map (\<lambda>(k', v'). if k' = ?p then (k', count_list ?ps ?p + 1) else (k', v')) ?d"
      using True keys by (simp add: dict_set_present)
    also have "\<dots> = map (\<lambda>q. (q, count_list (?ps @ [?p]) q)) (firsts ?ps)"
      by (auto simp: count_list_snoc)
    finally have calc: "count_provider ?d src
        = map (\<lambda>q. (q, count_list (?ps @ [?p]) q)) (firsts ?ps)" .
    have target: "map (\<lambda>p. (p, count_list (map s_provider (sources @ [src])) p))
                    (firsts (map s_provider (sources @ [src])))
        = map (\<lambda>q. (q, count_list (?ps @ [?p]) q)) (firsts ?ps)"
      using True by (simp add: firsts_snoc set_firsts)
    show ?thesis by (simp only: step calc target)
  next
    case False
    have d0: "dict_set ?p 0 ?d = ?d @ [(?p, 0)]"
      using False keys by (simp add: dict_set_absent)
    have in1: "?p \<in> fst ` set (?d @ [(?p, 0)])" by simp
    have m: "map_of (?d @ [(?p, 0)]) ?p = Some 0"
      using False by (simp add: map_of_map_restrict set_firsts map_add_def)
    have "count_provider ?d src = dict_set ?p 1 (?d @ [(?p, 0)])"
      using False keys d0 m by (simp add: count_provider_def Let_def)
    also have "\<dots> = map (\<lambda>(k', v'). if k' = ?p then (k', 1) else (k', v')) (?d @ [(?p, 0)])"
      using in1 by (simp only: dict_set_present)
    also have "\<dots> = ?d @ [(?p, 1)]"
    proof -
      have "\<And>q. q \<in> set (firsts ?ps) \<Longrightarrow> q \<noteq> ?p"
        using False unfolding set_firsts by blast
      then show ?thesis by (simp cong: map_cong)
    qed
    also have "\<dots> = map (\<lambda>q. (q, count_list (?ps @ [?p]) q)) (firsts ?ps @ [?p])"
    proof -
      have ne: "\<And>q. q \<in> set (firsts ?ps) \<Longrightarrow> ?p \<noteq> q"
        using False unfolding set_firsts by blast
      have z: "count_list ?ps ?p = 0"
        using False by (simp add: count_list_0_iff)
      show ?thesis
        using ne z by (simp add: count_list_snoc cong: map_cong)
    qed
    finally have calc: "count_provider ?d src
        = map (\<lambda>q. (q, count_list (?ps @ [?p]) q)) (firsts ?ps @ [?p])" .
    have target: "map (\<lambda>p. (p, count_list (map s_provider (sources @ [src])) p))
                    (firsts (map s_provider (sources @ [src])))
        = map (\<lambda>q. (q, count_list (?ps @ [?p]) q)) (firsts ?ps @ [?p])"
      using False by (simp add: firsts_snoc set_firsts)
    show ?thesis by (simp only: step calc target)
  qed
qed

lemma sorted_last_max:
  "sorted (map f ys) \<Longrightarrow> y \<in> set ys \<Longrightarrow> f y \<le> f (last ys)"
  by (induction ys) (auto split: if_splits)

lemma last_filter_keep:
  "ys \<noteq> [] \<Longrightarrow> P (last ys) \<Longrightarrow> last (filter P ys) = last ys"
proof (induction ys rule: rev_induct)
  case Nil
  then show ?case by simp
next
  case (snoc y ys)
  then show ?case by simp
qed

lemma find_hd_filter:
  "filter P xs \<noteq> [] \<Longrightarrow> find P xs = Some (hd (filter P xs))"
  by (induction xs) auto

lemma find_map_comp: "find P (map g xs) = map_option g (find (\<lambda>x. P (g x)) xs)"
  by (induction xs) auto

text \<open>The head of a list sorted in reverse order is its first element of maximal key.\<close>

lemma hd_sorted_reverse:
  assumes "xs \<noteq> []"
  shows "find (\<lambda>x. \<forall>y\<in>set xs. f y \<le> f x) xs = Some (hd (sorted_reverse f xs))"
proof -
  let ?ys = "sort_key f (rev xs)"
  let ?m = "last ?ys"
  have ne: "?ys \<noteq> []"
    using assms by (metis length_0_conv length_rev length_sort)
  have sety: "set ?ys = set xs" by simp
  have m_in: "?m \<in> set xs" using ne sety last_in_set by blast
  have mx: "\<And>y. y \<in> set xs \<Longrightarrow> f y \<le> f ?m"
    using sorted_last_max [of f ?ys] sety by (simp add: sorted_sort_key)
  let ?P = "\<lambda>y. f y = f ?m"
  have "filter ?P ?ys = filter ?P (rev xs)"
    by (rule sort_key_stable)
  then have "last (filter ?P ?ys) = last (rev (filter ?P xs))"
    by (simp add: rev_filter)
  moreover have "last (filter ?P ?ys) = ?m"
    using last_filter_keep [OF ne, of ?P] by simp
  moreover have fne: "filter ?P xs \<noteq> []"
    using m_in by (auto simp: filter_empty_conv)
  ultimately have m: "?m = hd (filter ?P xs)"
    by (simp add: last_rev)
  have "filter (\<lambda>x. \<forall>y\<in>set xs. f y \<le> f x) xs = filter ?P xs"
  proof (rule filter_cong [OF refl])
    fix x assume x: "x \<in> set xs"
    show "(\<forall>y\<in>set xs. f y \<le> f x) = (f x = f ?m)"
      using mx [OF x] m_in mx by (auto intro: antisym)
  qed
  with fne m have "find (\<lambda>x. \<forall>y\<in>set xs. f y \<le> f x) xs = Some ?m"
    using find_hd_filter [of "\<lambda>x. \<forall>y\<in>set xs. f y \<le> f x" xs] by simp
  moreover have "hd (sorted_reverse f xs) = ?m"
    using ne by (simp add: sorted_reverse_def hd_rev)
  ultimately show ?thesis by simp
qed

lemma analyze_nonempty:
  assumes "sources \<noteq> []"
  shows "total_providers (analyze_provider_diversity sources) = card (set (map s_provider sources))"
    and "diverse_sources (analyze_provider_diversity sources) = (1 < card (set (map s_provider sources)))"
    and "find (\<lambda>p. \<forall>q\<in>set (map s_provider sources).
                 count_list (map s_provider sources) q \<le> count_list (map s_provider sources) p)
           (map s_provider sources)
         = Some (primary_provider (analyze_provider_diversity sources))"
proof -
  let ?ps = "map s_provider sources"
  let ?g = "\<lambda>p. (p, count_list ?ps p)"
  let ?items = "map ?g (firsts ?ps)"
  have items: "foldl count_provider [] sources = ?items"
    by (rule provider_counts_eq)
  have len: "length ?items = card (set ?ps)"
    using distinct_card [OF distinct_firsts, of ?ps] by (simp add: set_firsts)
  show "total_providers (analyze_provider_diversity sources) = card (set ?ps)"
    using assms len by (simp add: analyze_provider_diversity_def Let_def items)
  show "diverse_sources (analyze_provider_diversity sources) = (1 < card (set ?ps))"
    using assms len by (simp add: analyze_provider_diversity_def Let_def items)
  have fne: "firsts ?ps \<noteq> []"
    using assms set_firsts [of ?ps] by (metis map_is_Nil_conv set_empty)
  then have ine: "?items \<noteq> []" by simp
  have sne: "sorted_reverse snd ?items \<noteq> []"
    using ine by (metis sorted_reverse_def length_0_conv length_rev length_sort)
  have prim: "primary_provider (analyze_provider_diversity sources) = fst (hd (sorted_reverse snd ?items))"
    using assms sne
    by (cases "sorted_reverse snd ?items") (simp_all add: analyze_provider_diversity_def Let_def items)
  have "find (\<lambda>x. \<forall>y\<in>set ?items. snd y \<le> snd x) ?items = Some (hd (sorted_reverse snd ?items))"
    by (rule hd_sorted_reverse [OF ine])
  then have "map_option ?g (find (\<lambda>p. \<forall>y\<in>set ?items. snd y \<le> snd (?g p)) (firsts ?ps))
               = Some (hd (sorted_reverse snd ?items))"
    by (simp only: find_map_comp)
  moreover have "(\<lambda>p. \<forall>y\<in>set ?items. snd y \<le> snd (?g p))
                   = (\<lambda>p. \<forall>q\<in>set ?ps. count_list ?ps q \<le> count_list ?ps p)"
    by (auto simp: set_firsts)
  ultimately have "map_option ?g (find (\<lambda>p. \<forall>q\<in>set ?ps. count_list ?ps q \<le> count_list ?ps p) ?ps)
               = Some (hd (sorted_reverse snd ?items))"
    by (simp only: find_firsts)
  then obtain p where p: "find (\<lambda>p. \<forall>q\<in>set ?ps. count_list ?ps q \<le> count_list ?ps p) ?ps = Some p"
    and h: "hd (sorted_reverse snd ?items) = ?g p"
    by auto
  show "find (\<lambda>p. \<forall>q\<in>set ?ps. count_list ?ps q \<le> count_list ?ps p) ?ps
          = Some (primary_provider (analyze_provider_diversity sources))"
    by (simp only: prim h p fst_conv)
qed

text \<open>
  C9. Provider diversity of a non-empty source list: \<open>diverse_sources\<close> holds exactly
  when more than one distinct provider occurs, \<open>total_providers\<close> is the number of
  distinct providers, and \<open>primary_provider\<close> is the first provider, in the order of the
  list, whose number of occurrences is maximal. For providers A, A, B this gives
  diverse, 2 and A.
\<close>

theorem provider_diversity_analysis:
  "sources \<noteq> [] \<longrightarrow>
     (diverse_sources (analyze_provider_diversity sources)
        \<longleftrightarrow> 1 < card (set (map s_provider sources)))
   \<and> total_providers (analyze_provider_diversity sources) = card (set (map s_provider sources))
   \<and> find (\<lambda>p. \<forall>q\<in>set (map s_provider sources).
               count_list (map s_provider sources) q \<le> count_list (map s_provider sources) p)
          (map s_provider sources)
       = Some (primary_provider (analyze_provider_diversity sources))
   \<and> (map s_provider sources = [''A'', ''A'', ''B''] \<longrightarrow>
        diverse_sources (analyze_provider_diversity sources)
        \<and> total_providers (analyze_provider_diversity sources) = 2
        \<and> primary_provider (analyze_provider_diversity sources) = ''A'')"
proof (intro impI conjI)
  assume ne: "sources \<noteq> []"
  note a = analyze_nonempty [OF ne]
  show "diverse_sources (analyze_provider_diversity sources)
        \<longleftrightarrow> 1 < card (set (map s_provider sources))" by (rule a(2))
  show "total_providers (analyze_provider_diversity sources) = card (set (map s_provider sources))"
    by (rule a(1))
  show "find (\<lambda>p. \<forall>q\<in>set (map s_provider sources).
               count_list (map s_provider sources) q \<le> count_list (map s_provider sources) p)
          (map s_provider sources)
       = Some (primary_provider (analyze_provider_diversity sources))" by (rule a(3))
  assume ex: "map s_provider sources = [''A'', ''A'', ''B'']"
  have c: "card (set [''A'', ''A'', ''B'']) = 2" by simp
  show "diverse_sources (analyze_provider_diversity sources)"
    using a(2) unfolding ex by simp
  show "total_providers (analyze_provider_diversity sources) = 2"
    using a(1) unfolding ex by simp
  show "primary_provider (analyze_provider_diversity sources) = ''A''"
    using a(3) unfolding ex by simp
qed

theorem provider_diversity_analysis_witness:
  "map mk_source [''A'', ''A'', ''B''] \<noteq> []
   \<and> diverse_sources (analyze_provider_diversity (map mk_source [''A'', ''A'', ''B'']))
   \<and> total_providers (analyze_provider_diversity (map mk_source [''A'', ''A'', ''B''])) = 2
   \<and> primary_provider (analyze_provider_diversity (map mk_source [''A'', ''A'', ''B''])) = ''A''"
  using provider_diversity_analysis [of "map mk_source [''A'', ''A'', ''B'']"]
  by (simp add: mk_source_def)

section \<open>Properties of source discovery\<close>

lemma format_result_id:
  "format_result topic result t i id_field = Inr (Some s) \<Longrightarrow> s_europeanaId s = id_field"
  by (auto simp: format_result_def Let_def split: sum.splits if_splits option.splits)

lemma fresh_only_process_result: "fresh_only (process_result topic)"
  unfolding fresh_only_def process_result_def
  by (auto split: option.splits if_splits sum.splits dest: format_result_id)

lemma fresh_only_process_graphic: "fresh_only (process_graphic topic)"
proof -
  have "\<And>seen result t i r seen'. process_graphic topic seen result t i = (r, seen') \<Longrightarrow>
          \<exists>r0. process_result topic seen result t i = (r0, seen')
                \<and> (\<forall>s. r = Some s \<longrightarrow> (\<exists>s0. r0 = Some s0 \<and> s_europeanaId s = s_europeanaId s0))"
    by (auto simp: process_graphic_def split: prod.splits)
  then show ?thesis
    using fresh_only_process_result [of topic] unfolding fresh_only_def by metis
qed

lemma collect_deduped:
  assumes "fresh_only pr"
  shows "deduped all_results seen_ids \<Longrightarrow>
         collect pr t results i (all_results, seen_ids) = (all', seen') \<Longrightarrow> deduped all' seen'"
proof (induction results arbitrary: i all_results seen_ids)
  case Nil
  then show ?case by simp
next
  case (Cons result results)
  obtain r seen1 where pr: "pr seen_ids result t i = (r, seen1)"
    by (cases "pr seen_ids result t i") auto
  from assms pr have sub: "seen_ids \<subseteq> seen1"
    and fresh: "\<And>s. r = Some s \<Longrightarrow> s_europeanaId s \<notin> seen_ids \<and> s_europeanaId s \<in> seen1"
    unfolding fresh_only_def by blast+
  show ?case
  proof (cases r)
    case None
    have "deduped all_results seen1"
      using Cons.prems(1) sub unfolding deduped_def by blast
    moreover have "collect pr t results (i + 1) (all_results, seen1) = (all', seen')"
      using Cons.prems(2) pr None by simp
    ultimately show ?thesis by (rule Cons.IH)
  next
    case (Some s)
    have "deduped (all_results @ [s]) seen1"
      using Cons.prems(1) sub fresh [OF Some] unfolding deduped_def by auto
    moreover have "collect pr t results (i + 1) (all_results @ [s], seen1) = (all', seen')"
      using Cons.prems(2) pr Some by simp
    ultimately show ?thesis by (rule Cons.IH)
  qed
qed

lemma strategy_deduped:
  assumes "fresh_only pr" and "deduped all_results seen_ids"
    and "strategy pr t request (all_results, seen_ids, n) = (all', seen', n')"
  shows "deduped all' seen'"
proof (cases "request n")
  case (Pair res n1)
  show ?thesis
  proof (cases res)
    case (Inl e)
    with Pair assms(2,3) show ?thesis by (simp add: strategy_def)
  next
    case (Inr results)
    obtain a b where c: "collect pr t results (int (length all_results) + 1) (all_results, seen_ids) = (a, b)"
      by (cases "collect pr t results (int (length all_results) + 1) (all_results, seen_ids)") auto
    from collect_deduped [OF assms(1,2) c] Pair Inr c assms(3) show ?thesis
      by (simp add: strategy_def)
  qed
qed

lemma strategy_deduped_state:
  "fresh_only pr \<Longrightarrow> deduped_state st \<Longrightarrow> deduped_state (strategy pr t request st)"
proof -
  assume f: "fresh_only pr" and d: "deduped_state st"
  obtain a s n where st: "st = (a, s, n)" by (cases st) auto
  obtain a' s' n' where r: "strategy pr t request (a, s, n) = (a', s', n')"
    by (cases "strategy pr t request (a, s, n)") auto
  from strategy_deduped [OF f _ r] d st r show ?thesis
    by (simp add: deduped_state_def)
qed

lemma type_searches_deduped_state:
  "deduped_state st \<Longrightarrow> deduped_state (type_searches api topic source_count media_types st)"
proof (induction media_types arbitrary: st)
  case Nil
  then show ?case by simp
next
  case (Cons media_type media_types)
  obtain a s n where st: "st = (a, s, n)" by (cases st) auto
  show ?case
  proof (cases "int (length a) \<ge> source_count")
    case True
    with Cons.prems st show ?thesis by simp
  next
    case False
    have "deduped_state (strategy (process_result topic) media_type
                (search_with_retry api topic topic (Some media_type) (source_count - int (length a)))
                (a, s, n))"
      using strategy_deduped_state [OF fresh_only_process_result] Cons.prems st by simp
    from Cons.IH [OF this] False st show ?thesis by simp
  qed
qed

lemma deduped_state_init: "deduped_state ([], {}, n)"
  by (simp add: deduped_state_def deduped_def)

lemma discover_sources_deduped: "deduped_state (discover_sources api topic source_count n)"
  by (simp add: discover_sources_def Let_def strategy_deduped_state fresh_only_process_result
        type_searches_deduped_state deduped_state_init)

lemma discover_graphics_deduped: "deduped_state (discover_graphics api topic cnt n)"
  by (simp add: discover_graphics_def Let_def strategy_deduped_state fresh_only_process_graphic
        deduped_state_init)

lemma distinct_map_sorted_reverse:
  "distinct (map f xs) \<Longrightarrow> distinct (map f (sorted_reverse key xs))"
  by (simp add: distinct_map sorted_reverse_def)

lemma distinct_map_take: "distinct (map f xs) \<Longrightarrow> distinct (map f (take k xs))"
  by (simp add: take_map [symmetric])

text \<open>
  C5. Deduplication: the list returned by a run of \<open>search_sources\<close>, and the list returned
  by a run of \<open>search_graphics\<close>, never holds two entries with the same origin identifier,
  whatever the search service answers to the requests of the run.
\<close>

theorem discovery_never_repeats_origin_identifier:
  "distinct (map s_europeanaId (fst (search_sources api topic source_count n)))
   \<and> distinct (map s_europeanaId (fst (search_graphics api topic cnt n)))"
proof
  obtain a s n' where d: "discover_sources api topic source_count n = (a, s, n')"
    by (cases "discover_sources api topic source_count n") auto
  have "distinct (map s_europeanaId a)"
    using discover_sources_deduped [of api topic source_count n] d
    by (simp add: deduped_state_def deduped_def)
  then have "distinct (map s_europeanaId (sorted_reverse s_europeanaId a))"
    by (rule distinct_map_sorted_reverse)
  then show "distinct (map s_europeanaId (fst (search_sources api topic source_count n)))"
    by (simp add: search_sources_def d Let_def distinct_map_take)
next
  obtain a s n' where d: "discover_graphics api topic cnt n = (a, s, n')"
    by (cases "discover_graphics api topic cnt n") auto
  have "distinct (map s_europeanaId a)"
    using discover_graphics_deduped [of api topic cnt n] d
    by (simp add: deduped_state_def deduped_def)
  then have "distinct (map s_europeanaId (sorted_reverse s_europeanaId a))"
    by (rule distinct_map_sorted_reverse)
  then show "distinct (map s_europeanaId (fst (search_graphics api topic cnt n)))"
    by (simp add: search_graphics_def d slice_to_def distinct_map_take)
qed

text \<open>
  C4. The ids of the returned list are not dense in list order. When the first request
  is answered with the records \<open>/1/a\<close> and \<open>/1/b\<close>, they get the ids 1 and 2 and the list,
  sorted by descending origin identifier, carries the ids 2, 1. When it is answered with
  \<open>/1/b\<close> twice and then \<open>/1/a\<close>, the skipped duplicate uses up the id 2 and the list
  carries the ids 1, 3.
\<close>

theorem search_sources_ids_not_dense:
  "map s_id (fst (search_sources example_api ''topic'' 2 0)) = [2, 1]
   \<and> map s_id (fst (search_sources example_api_dup ''topic'' 2 0)) = [1, 3]"
  by code_simp

section \<open>Properties of the workflow controller\<close>

lemma set_plan_pointer_frame:
  "self_sources (set_plan_pointer s sec) = self_sources s"
  "self_report_sections (set_plan_pointer s sec) = self_report_sections s"
  by (simp_all add: set_plan_pointer_def)

lemma snd_after_append:
  "snd (after_append w s sec) = s \<or> snd (after_append w s sec) = set_plan_pointer s sec"
  by (simp add: after_append_def Let_def split: option.split sum.split)

lemma after_append_frame:
  "self_sources (snd (after_append w s sec)) = self_sources s"
  "self_report_sections (snd (after_append w s sec)) = self_report_sections s"
  using snd_after_append [of w s sec] set_plan_pointer_frame [of s sec] by auto

lemma submit_section_sources:
  "self_sources (snd (submit_section w s v)) = self_sources s"
proof (cases "citation_gate v")
  case (Inl e)
  then show ?thesis by (simp add: submit_section_def)
next
  case (Inr r)
  show ?thesis
  proof (cases r)
    case (Some rejection)
    with Inr show ?thesis by (simp add: submit_section_def)
  next
    case None
    with Inr show ?thesis
      by (cases v) (simp_all add: submit_section_def Let_def after_append_frame)
  qed
qed

lemma validate_section_VSection:
  "validate_section d = Inr v \<Longrightarrow> \<exists>sec. v = VSection sec"
  unfolding validate_section_def Let_def
  by (auto split: if_splits sum.splits pyval.splits)

lemma validate_no_keys:
  assumes "map_of kvs ''topic'' = None" "map_of kvs ''search_sources'' = None"
    "map_of kvs ''confirm_sources'' = None"
  shows "validate_section_data repr (PDict kvs) = validate_section (map_of kvs)"
  using assms by (simp add: validate_section_data_def)

lemma snd_process_section:
  "snd (process_section w s input_data) = snd (process_section_body w s input_data)"
  by (simp add: process_section_def split: prod.split sum.split exn.split)

lemma body_section_path:
  assumes "validate_section_data (w_repr w) input_data = Inr (VSection sec)"
  shows "process_section_body w s input_data = submit_section w s (VSection sec)"
  using assms by (simp add: process_section_body_def)

text \<open>
  C3. A record without the keys \<open>topic\<close>, \<open>search_sources\<close> and \<open>confirm_sources\<close> is a
  section submission, and \<open>process_section\<close> leaves \<open>self.sources\<close> as it was, whether the
  submission is accepted, rejected by the validation or rejected by the citation checks,
  and also when it ends in a caught exception.
\<close>

theorem section_submission_keeps_sources:
  assumes "map_of kvs ''topic'' = None" and "map_of kvs ''search_sources'' = None"
    and "map_of kvs ''confirm_sources'' = None"
  shows "self_sources (snd (process_section w s (PDict kvs))) = self_sources s"
proof (cases "validate_section (map_of kvs)")
  case (Inl e)
  then have "process_section_body w s (PDict kvs) = (Inl e, s)"
    using validate_no_keys [OF assms] by (simp add: process_section_body_def)
  then show ?thesis by (simp add: snd_process_section)
next
  case (Inr v)
  then obtain sec where v: "v = VSection sec"
    using validate_section_VSection by blast
  have "validate_section_data (w_repr w) (PDict kvs) = Inr (VSection sec)"
    using validate_no_keys [OF assms] Inr v by simp
  from body_section_path [OF this] show ?thesis
    by (simp add: snd_process_section submit_section_sources)
qed

text \<open>
  C10. The record \<open>{"confirm_sources": false}\<close> is not a confirmation: in every session
  it is answered by the failure that no sources were cited, with the error flag set, and
  the session stays as it was.
\<close>

theorem confirm_sources_false_is_rejected:
  "process_section w s (PDict [(''confirm_sources'', PBool False)])
     = (\<lparr>content_text = Failure
           [(''error'', JStr ''No sources cited. Every non-bibliography section must cite specific sources.''),
            (''status'', JStr ''failed''),
            (''message'', JStr ''Please include sources_used parameter with IDs of sources used in this section.'')],
         isError = Some True\<rparr>, s)"
  by (simp add: process_section_def process_section_body_def validate_section_data_def
        submit_section_def citation_gate_def failed_def)

text \<open>
  C8. A search requested on a new server, before any topic was set, is answered by a
  plain text, and the response carries no error flag.
\<close>

theorem search_before_topic_has_no_error_flag:
  "process_section w new_session (PDict [(''search_sources'', PBool True)])
     = (\<lparr>content_text = Plain ''Error: No topic specified. Please initialize with a topic first.'',
         isError = None\<rparr>, new_session)"
  by (simp add: process_section_def process_section_body_def validate_section_data_def
        search_branch_def ok_def new_session_def)

lemma is_list_conv: "is_list v = (\<exists>xs. v = PList xs)"
  by (cases v) auto

lemma validate_section_nonbib:
  assumes "validate_section d = Inr (VSection sec)" and "\<not> truthy (sec_is_bibliography sec)"
  shows "(\<exists>ids. sec_sources_used sec = PList ids \<and> ids \<noteq> [])
         \<and> 10 \<le> length (strip (sec_content sec))"
proof -
  let ?b = "case d ''is_bibliography'' of None \<Rightarrow> PBool False | Some v \<Rightarrow> v"
  from assms(1) have b: "sec_is_bibliography sec = ?b"
    unfolding validate_section_def Let_def
    by (auto split: if_splits sum.splits pyval.splits)
  with assms(2) have nb: "\<not> truthy ?b" by simp
  from assms(1) nb obtain su where su: "d ''sources_used'' = Some su" "truthy su" "is_list su"
    unfolding validate_section_def Let_def
    by (auto split: if_splits option.splits)
  from su(3) obtain ids where ids: "su = PList ids" by (auto simp: is_list_conv)
  with su(2) have ne: "ids \<noteq> []" by simp
  from assms(1) su(1) ids have "sec_sources_used sec = PList ids"
    unfolding validate_section_def Let_def
    by (auto split: if_splits sum.splits pyval.splits)
  moreover from assms(1) nb have "10 \<le> length (strip (sec_content sec))"
    unfolding validate_section_def Let_def
    by (auto split: if_splits sum.splits pyval.splits)
  ultimately show ?thesis using ne by blast
qed

lemma validate_data_VSection:
  "validate_section_data repr input_data = Inr (VSection sec) \<Longrightarrow>
     \<exists>d. validate_section d = Inr (VSection sec)"
  unfolding validate_section_data_def Let_def
  by (auto split: pyval.splits option.splits if_splits)

lemma uncited_empty:
  "uncited su cited = Inr [] \<Longrightarrow> v \<in> set su \<Longrightarrow> \<exists>c. as_int v = Some c \<and> c \<in> set cited"
proof (induction su)
  case Nil
  then show ?case by simp
next
  case (Cons a su)
  from Cons.prems(1) obtain b us where b: "in_int_set a cited = Inr b"
    and us: "uncited su cited = Inr us" and e: "(if b then us else a # us) = []"
    by (auto split: sum.splits)
  from e have bt: "b" and use: "us = []" by (auto split: if_splits)
  show ?case
  proof (cases "v = a")
    case True
    from b bt show ?thesis
      unfolding True by (cases a) (auto split: option.splits)
  next
    case False
    with Cons.prems(2) have "v \<in> set su" by simp
    from Cons.IH [OF _ this] us use show ?thesis by simp
  qed
qed

lemma verify_citations_valid_cited:
  assumes "verify_citations content su = Inr r" and "vc_valid r" and "v \<in> set su"
  shows "\<exists>c. as_int v = Some c
           \<and> (\<exists>p\<in>set (paragraphs content). qualifying p \<and> c \<in> set (paragraph_citations p))"
proof -
  let ?ips = "enumerate0 (paragraphs content)"
  obtain valid cited issues where l: "verify_loop su ?ips (True, [], []) = (valid, cited, issues)"
    by (cases "verify_loop su ?ips (True, [], [])") auto
  have c: "set cited = (\<Union>p\<in>set (paragraphs content). if qualifying p then set (paragraph_citations p) else {})"
    using verify_loop_cited [of su ?ips True "[]" "[]"] l
    by (simp add: Union_enumerate0)
  from assms(1) l obtain us where us: "uncited su cited = Inr us"
    and r: "vc_valid r \<longrightarrow> us = []"
    by (auto simp: verify_citations_def Let_def split: sum.splits if_splits)
  with assms(2) have "uncited su cited = Inr []" by simp
  from uncited_empty [OF this assms(3)] obtain k where "as_int v = Some k" "k \<in> set cited"
    by blast
  then show ?thesis unfolding c by (auto split: if_splits)
qed

lemma citation_gate_pass:
  assumes "citation_gate (VSection sec) = Inr None" and "\<not> truthy (sec_is_bibliography sec)"
    and "sec_sources_used sec = PList ids"
  shows "\<forall>v\<in>set ids. \<exists>c. as_int v = Some c
           \<and> (\<exists>p\<in>set (paragraphs (sec_content sec)). qualifying p \<and> c \<in> set (paragraph_citations p))"
proof -
  from assms obtain r where "verify_citations (sec_content sec) ids = Inr r" "vc_valid r"
    by (auto simp: citation_gate_def Let_def split: if_splits sum.splits)
  then show ?thesis using verify_citations_valid_cited by blast
qed

lemma report_sections_after_submit:
  assumes "validate_section d = Inr (VSection sec0)"
  shows "self_report_sections (snd (submit_section w s (VSection sec0))) = self_report_sections s
         \<or> (\<exists>sec. self_report_sections (snd (submit_section w s (VSection sec0)))
                     = self_report_sections s @ [sec] \<and> recorded_ok sec)"
proof (cases "citation_gate (VSection sec0)")
  case (Inl e)
  then show ?thesis by (simp add: submit_section_def)
next
  case (Inr r)
  show ?thesis
  proof (cases r)
    case (Some rejection)
    with Inr show ?thesis by (simp add: submit_section_def)
  next
    case None
    let ?sec = "if sec_section_number sec0 > sec_total_sections sec0
                then sec0\<lparr>sec_total_sections := sec_section_number sec0\<rparr> else sec0"
    have same: "sec_is_bibliography ?sec = sec_is_bibliography sec0"
      "sec_sources_used ?sec = sec_sources_used sec0" "sec_content ?sec = sec_content sec0"
      by simp_all
    have ok: "recorded_ok ?sec"
    proof (cases "truthy (sec_is_bibliography sec0)")
      case True
      then show ?thesis unfolding recorded_ok_def same by simp
    next
      case False
      from validate_section_nonbib [OF assms False] obtain ids
        where ids: "sec_sources_used sec0 = PList ids" "ids \<noteq> []"
          and len: "10 \<le> length (strip (sec_content sec0))" by blast
      from citation_gate_pass [OF _ False ids(1)] Inr None ids len
      show ?thesis unfolding recorded_ok_def same by simp
    qed
    have "self_report_sections (snd (submit_section w s (VSection sec0)))
            = self_report_sections s @ [?sec]"
      using Inr None by (simp add: submit_section_def Let_def after_append_frame)
    with ok show ?thesis by blast
  qed
qed

lemma search_branch_sections:
  "self_report_sections (snd (search_branch w s)) = self_report_sections s"
  by (simp add: search_branch_def Let_def split: option.split prod.split)

lemma init_session_sections:
  "self_report_sections (snd (init_session s topic pc sc ig)) = []"
  by (simp add: init_session_def Let_def)

lemma report_sections_step:
  "self_report_sections (snd (process_section w s input_data)) = []
   \<or> self_report_sections (snd (process_section w s input_data)) = self_report_sections s
   \<or> (\<exists>sec. self_report_sections (snd (process_section w s input_data))
                = self_report_sections s @ [sec] \<and> recorded_ok sec)"
proof (cases "validate_section_data (w_repr w) input_data")
  case (Inl e)
  then show ?thesis by (simp add: snd_process_section process_section_body_def)
next
  case (Inr data)
  show ?thesis
  proof (cases data)
    case (VInit topic pc sc ig)
    with Inr have "snd (process_section_body w s input_data) = snd (init_session s topic pc sc ig)"
      by (simp add: process_section_body_def split: prod.split)
    then show ?thesis by (simp add: snd_process_section init_session_sections)
  next
    case VSearch
    with Inr have "snd (process_section_body w s input_data) = snd (search_branch w s)"
      by (simp add: process_section_body_def split: prod.split)
    then show ?thesis by (simp add: snd_process_section search_branch_sections)
  next
    case (VConfirm b)
    with Inr show ?thesis
      by (cases b)
        (simp_all add: snd_process_section process_section_body_def submit_section_def
           citation_gate_def)
  next
    case (VSection sec0)
    with Inr obtain d where d: "validate_section d = Inr (VSection sec0)"
      using validate_data_VSection by blast
    have "snd (process_section w s input_data) = snd (submit_section w s (VSection sec0))"
      using Inr VSection by (simp add: snd_process_section process_section_body_def)
    with report_sections_after_submit [OF d, of w s] show ?thesis by simp
  qed
qed

lemma recorded_ok_step:
  assumes "\<forall>sec\<in>set (self_report_sections s). recorded_ok sec"
  shows "\<forall>sec\<in>set (self_report_sections (snd (process_section w s input_data))). recorded_ok sec"
  using report_sections_step [of w s input_data] assms by auto

lemma recorded_ok_run:
  "\<forall>sec\<in>set (self_report_sections s). recorded_ok sec \<Longrightarrow>
     \<forall>sec\<in>set (self_report_sections (run_calls w s inputs)). recorded_ok sec"
proof (induction inputs arbitrary: s)
  case Nil
  then show ?case by (simp add: run_calls_def)
next
  case (Cons input_data inputs)
  have "run_calls w s (input_data # inputs)
          = run_calls w (snd (process_section w s input_data)) inputs"
    by (simp add: run_calls_def)
  with Cons.IH [OF recorded_ok_step [OF Cons.prems]] show ?case by simp
qed

text \<open>
  C7, as the code has it. After any sequence of calls on a new server, every recorded
  section that is not a bibliography has a non-empty list \<open>sources_used\<close>, each id of which
  is cited in a qualifying paragraph of its content, and a content of stripped length at
  least 10. The ids are compared with the citations of the content, not with the Source
  list.
\<close>

theorem recorded_sections_cite_their_sources:
  "\<forall>sec\<in>set (self_report_sections (run_calls w new_session inputs)). recorded_ok sec"
  by (rule recorded_ok_run) (simp add: new_session_def)

theorem section_submission_keeps_sources_witness:
  "map_of (example_section_fields 5) ''topic'' = None
   \<and> map_of (example_section_fields 5) ''search_sources'' = None
   \<and> map_of (example_section_fields 5) ''confirm_sources'' = None
   \<and> self_sources (snd (process_section example_world
         (run_calls example_world new_session [example_init, example_search])
         (PDict (example_section_fields 5))))
       = self_sources (run_calls example_world new_session [example_init, example_search])"
  using section_submission_keeps_sources
          [of "example_section_fields 5" example_world
              "run_calls example_world new_session [example_init, example_search]"]
  by (simp add: example_section_fields_def)

text \<open>
  C7, as stated, fails: in the example run two sources are found, and the section that
  cites only the id 5 is recorded.
\<close>

theorem accepted_section_cites_missing_source:
  "self_report_sections (run_calls example_world new_session
      [example_init, example_search, example_section 5]) = [example_recorded]
   \<and> sec_sources_used example_recorded = PList [PInt 5]
   \<and> \<not> truthy (sec_is_bibliography example_recorded)
   \<and> length (self_sources (run_calls example_world new_session
        [example_init, example_search, example_section 5])) = 2"
  by code_simp

theorem recorded_sections_cite_their_sources_witness:
  "example_recorded \<in> set (self_report_sections (run_calls example_world new_session
      [example_init, example_search, example_section 5]))
   \<and> \<not> truthy (sec_is_bibliography example_recorded)
   \<and> sec_sources_used example_recorded = PList [PInt 5]
   \<and> (\<exists>p\<in>set (paragraphs (sec_content example_recorded)).
         qualifying p \<and> 5 \<in> set (paragraph_citations p))
   \<and> 10 \<le> length (strip (sec_content example_recorded))"
proof -
  have run: "self_report_sections (run_calls example_world new_session
      [example_init, example_search, example_section 5]) = [example_recorded]"
    by code_simp
  have nb: "\<not> truthy (sec_is_bibliography example_recorded)"
    and su: "sec_sources_used example_recorded = PList [PInt 5]"
    by (simp_all add: example_recorded_def)
  have "recorded_ok example_recorded"
    using recorded_sections_cite_their_sources
            [of example_world "[example_init, example_search, example_section 5]"]
    by (simp add: run)
  with nb su have "(\<exists>p\<in>set (paragraphs (sec_content example_recorded)).
         qualifying p \<and> 5 \<in> set (paragraph_citations p))
   \<and> 10 \<le> length (strip (sec_content example_recorded))"
    by (simp add: recorded_ok_def)
  with run nb su show ?thesis by simp
qed

end
